theory Spec2Isabelle
  imports Main "HOL-Library.Word" "HOL-Library.Char_ord" "HOL-Library.List_Lexorder"
begin

section \<open>Strings and ordered containers\<close>

text \<open>
  A QString is modelled as a \<open>string\<close>. QString::null compares equal to the empty
  string, and the model identifies the two. The order on strings is the lexicographic order
  on characters, as QString's \<open>operator<\<close> is.

  A \<open>std::set<QString>\<close> is modelled by the list of its elements in iteration order,
  which is ascending and without repetition. \<open>find (x) == end()\<close> is \<open>x \<notin> set xs\<close>,
  \<open>insert\<close> is \<open>set_insert\<close>, \<open>size()\<close> is \<open>length\<close>, \<open>clear()\<close> is \<open>[]\<close>.
\<close>

definition QString_null :: string where
  "QString_null = []"

definition set_insert :: "string \<Rightarrow> string list \<Rightarrow> string list" where
  "set_insert x xs = (if x \<in> set xs then xs else insort x xs)"

definition set_ok :: "string list \<Rightarrow> bool" where
  "set_ok xs = (sorted xs \<and> distinct xs)"

section \<open>QuizEngine\<close>

text \<open>
  Modelled from the spec: the declarations of \<open>MatchType\<close> and of the class
  \<open>QuizEngine\<close> (its header) are not among the sources. The spec names the match types
  Pattern, Anagram and Subanagram; the switches of the source have a default branch, which
  \<open>UnknownMatchType\<close> stands for. The spec calls the cursor and the three counters
  integers; the source steps them with \<open>++\<close> and \<open>+=\<close>, the arithmetic of a C++
  \<open>int\<close>, so they are 32-bit words here, read as two's complement by \<open>sint\<close>, as the
  counters of \<open>QuizProgress\<close> are. The fields carry the names the source uses.
\<close>

type_synonym cint = "32 word"

datatype MatchType = Pattern | Anagram | Subanagram | UnknownMatchType

datatype ResponseStatus = Correct | Incorrect | Duplicate

text \<open>
  The lexicon service (\<open>WordEngine\<close>) is outside the sources. The engine only calls these
  four operations, so they are parameters.
\<close>

record WordEngine =
  matchPattern :: "string \<Rightarrow> string list"
  matchAnagram :: "string \<Rightarrow> string list"
  matchSubanagram :: "string \<Rightarrow> string list"
  alphagrams :: "string list \<Rightarrow> string list"

record QuizEngine =
  quizQuestions :: "string list"
  quizType :: MatchType
  questionIndex :: cint
  correctResponses :: "string list"
  correctUserResponses :: "string list"
  incorrectUserResponses :: "string list"
  quizTotal :: cint
  quizCorrect :: cint
  quizIncorrect :: cint

text \<open>
  \<open>QValueList::at (i)\<close> is the iterator at position \<open>i\<close>, \<open>end()\<close> when \<open>i\<close> is the size
  of the list, and undefined for any other index out of range. Its parameter is unsigned,
  so a negative cursor is an index beyond every list.
\<close>

datatype fault = OutOfRange

definition getQuestion :: "QuizEngine \<Rightarrow> fault + string" where
  "getQuestion s =
     (let i = sint (questionIndex s); n = int (length (quizQuestions s))
      in if 0 \<le> i \<and> i < n then Inr (quizQuestions s ! nat i)
         else if i = n then Inr QString_null
         else Inl OutOfRange)"

text \<open>
  In \<open>questionIndex == quizQuestions.size() - 1\<close> the right side is unsigned and the
  cursor is converted to unsigned: on an empty list the two are equal for the cursor
  \<open>-1\<close> alone.
\<close>

definition onLastQuestion :: "QuizEngine \<Rightarrow> bool" where
  "onLastQuestion s = (sint (questionIndex s) = int (length (quizQuestions s)) - 1)"

definition clearQuestion :: "QuizEngine \<Rightarrow> QuizEngine" where
  "clearQuestion s =
     s\<lparr>correctResponses := [], correctUserResponses := [], incorrectUserResponses := []\<rparr>"

definition matchFor :: "WordEngine \<Rightarrow> MatchType \<Rightarrow> string \<Rightarrow> string list" where
  "matchFor we t q =
     (case t of
        Pattern \<Rightarrow> matchPattern we q
      | Anagram \<Rightarrow> matchAnagram we q
      | Subanagram \<Rightarrow> matchSubanagram we q
      | UnknownMatchType \<Rightarrow> [])"

fun insertAll :: "string list \<Rightarrow> string list \<Rightarrow> string list" where
  "insertAll [] acc = acc"
| "insertAll (a # answers) acc = insertAll answers (set_insert a acc)"

definition prepareQuestion :: "WordEngine \<Rightarrow> QuizEngine \<Rightarrow> fault + QuizEngine" where
  "prepareQuestion we s =
     (let s1 = clearQuestion s
      in case getQuestion s1 of
           Inl e \<Rightarrow> Inl e
         | Inr question \<Rightarrow>
             (let answers = matchFor we (quizType s1) question;
                  s2 = s1\<lparr>correctResponses := insertAll answers (correctResponses s1)\<rparr>
              in Inr (s2\<lparr>quizTotal := quizTotal s2 + of_nat (length (correctResponses s2))\<rparr>)))"

text \<open>
  The shuffle of \<open>newQuiz\<close>. \<open>rnd i\<close> is the value \<open>std::rand()\<close> returns in iteration
  \<open>i\<close> of the loop.
\<close>

fun shuffle :: "(nat \<Rightarrow> nat) \<Rightarrow> nat \<Rightarrow> nat list \<Rightarrow> string list \<Rightarrow> string list" where
  "shuffle rnd num [] qs = qs"
| "shuffle rnd num (i # is) qs =
     (let rnum = rnd i mod num
      in if rnum = i then shuffle rnd num is qs
         else shuffle rnd num is (qs[rnum := qs ! i, i := qs ! rnum]))"

definition newQuiz ::
  "WordEngine \<Rightarrow> (nat \<Rightarrow> nat) \<Rightarrow> QuizEngine \<Rightarrow> string \<Rightarrow> MatchType \<Rightarrow> bool \<Rightarrow> bool
     \<Rightarrow> fault + QuizEngine" where
  "newQuiz we rnd s input type alphagrams_flag randomOrder =
     (let s1 = s\<lparr>quizQuestions := [], quizType := type\<rparr>;
          s2 = (if alphagrams_flag then
                  (let s3 = (case type of
                               Pattern \<Rightarrow>
                                 s1\<lparr>quizQuestions := matchPattern we input, quizType := Anagram\<rparr>
                             | Anagram \<Rightarrow> s1\<lparr>quizQuestions := matchAnagram we input\<rparr>
                             | Subanagram \<Rightarrow> s1\<lparr>quizQuestions := matchSubanagram we input\<rparr>
                             | UnknownMatchType \<Rightarrow> s1)
                   in s3\<lparr>quizQuestions := alphagrams we (quizQuestions s3)\<rparr>)
                else s1\<lparr>quizQuestions := quizQuestions s1 @ [input]\<rparr>);
          s4 = (if randomOrder then
                  (let num = length (quizQuestions s2)
                   in s2\<lparr>quizQuestions := shuffle rnd num [0..<num] (quizQuestions s2)\<rparr>)
                else s2)
      in prepareQuestion we
           (s4\<lparr>questionIndex := 0, quizTotal := 0, quizCorrect := 0, quizIncorrect := 0\<rparr>))"

text \<open>
  \<open>nextQuestion\<close> is declared to return \<open>bool\<close>. The path that advances ends without a
  return statement, so no value is returned there: the model's result is \<open>None\<close>.
\<close>

definition nextQuestion :: "WordEngine \<Rightarrow> QuizEngine \<Rightarrow> fault + (bool option \<times> QuizEngine)" where
  "nextQuestion we s =
     (if onLastQuestion s then Inr (Some False, s)
      else case prepareQuestion we (s\<lparr>questionIndex := questionIndex s + 1\<rparr>) of
             Inl e \<Rightarrow> Inl e
           | Inr s' \<Rightarrow> Inr (None, s'))"

definition respond :: "QuizEngine \<Rightarrow> string \<Rightarrow> ResponseStatus \<times> QuizEngine" where
  "respond s response =
     (if response \<notin> set (correctResponses s) then
        (Incorrect, s\<lparr>incorrectUserResponses := incorrectUserResponses s @ [response],
                      quizIncorrect := quizIncorrect s + 1\<rparr>)
      else if response \<in> set (correctUserResponses s) then (Duplicate, s)
      else (Correct, s\<lparr>correctUserResponses := set_insert response (correctUserResponses s),
                       quizCorrect := quizCorrect s + 1\<rparr>))"

definition getMissed :: "QuizEngine \<Rightarrow> string list" where
  "getMissed s = filter (\<lambda>x. x \<notin> set (correctUserResponses s)) (correctResponses s)"

section \<open>QuizProgress\<close>

text \<open>
  The counters are C++ \<open>int\<close>s (\<open>cint\<close>).

  A \<open>QMap<QString, int>\<close> keeps one value per key and iterates in ascending key
  order. It is modelled by the list of its (key, value) pairs in iteration order.
  \<open>m.contains (k)\<close> is \<open>qmap_contains\<close>, reading \<open>m[k]\<close> is \<open>qmap_value\<close> (a missing
  key reads as the default \<open>0\<close>), the assignment \<open>m[k] = v\<close> is \<open>qmap_set\<close>.
\<close>

type_synonym qmap = "(string \<times> cint) list"

definition qmap_contains :: "qmap \<Rightarrow> string \<Rightarrow> bool" where
  "qmap_contains m k = (k \<in> fst ` set m)"

definition qmap_value :: "qmap \<Rightarrow> string \<Rightarrow> cint" where
  "qmap_value m k = (case map_of m k of Some v \<Rightarrow> v | None \<Rightarrow> 0)"

fun qmap_set :: "qmap \<Rightarrow> string \<Rightarrow> cint \<Rightarrow> qmap" where
  "qmap_set [] k v = [(k, v)]"
| "qmap_set ((k', v') # m) k v =
     (if k < k' then (k, v) # (k', v') # m
      else if k = k' then (k, v) # m
      else (k', v') # qmap_set m k v)"

definition qmap_ok :: "qmap \<Rightarrow> bool" where
  "qmap_ok m = sorted_wrt (<) (map fst m)"

definition sum_values :: "qmap \<Rightarrow> cint" where
  "sum_values m = sum_list (map snd m)"

record QuizProgress =
  question :: cint
  correct :: cint
  incorrect :: cint
  missed :: cint
  incorrectWords :: qmap
  missedWords :: qmap

definition QuizProgress_new :: QuizProgress where
  "QuizProgress_new =
     \<lparr>question = 0, correct = 0, incorrect = 0, missed = 0, incorrectWords = [], missedWords = []\<rparr>"

definition setQuestion :: "QuizProgress \<Rightarrow> cint \<Rightarrow> QuizProgress" where
  "setQuestion p q = p\<lparr>question := q\<rparr>"

definition setCorrect :: "QuizProgress \<Rightarrow> cint \<Rightarrow> QuizProgress" where
  "setCorrect p c = p\<lparr>correct := c\<rparr>"

definition addIncorrect :: "QuizProgress \<Rightarrow> string \<Rightarrow> QuizProgress" where
  "addIncorrect p word =
     (let m = incorrectWords p;
          m' = (if qmap_contains m word then qmap_set m word (qmap_value m word + 1)
                else qmap_set m word 1)
      in p\<lparr>incorrectWords := m', incorrect := incorrect p + 1\<rparr>)"

text \<open>The overload \<open>addIncorrect (word, count)\<close>.\<close>

definition addIncorrect_count :: "QuizProgress \<Rightarrow> string \<Rightarrow> cint \<Rightarrow> QuizProgress" where
  "addIncorrect_count p word count =
     p\<lparr>incorrectWords := qmap_set (incorrectWords p) word count,
        incorrect := incorrect p + count\<rparr>"

definition addMissed :: "QuizProgress \<Rightarrow> string \<Rightarrow> QuizProgress" where
  "addMissed p word =
     (let m = missedWords p;
          m' = (if qmap_contains m word then qmap_set m word (qmap_value m word + 1)
                else qmap_set m word 1)
      in p\<lparr>missedWords := m', missed := missed p + 1\<rparr>)"

text \<open>The overload \<open>addMissed (word, count)\<close>.\<close>

definition addMissed_count :: "QuizProgress \<Rightarrow> string \<Rightarrow> cint \<Rightarrow> QuizProgress" where
  "addMissed_count p word count =
     p\<lparr>missedWords := qmap_set (missedWords p) word count,
        missed := missed p + count\<rparr>"

subsection \<open>Numbers as attribute text\<close>

text \<open>
  \<open>setAttribute (name, int)\<close> stores the decimal text of the number
  (\<open>QString::number\<close>), and \<open>QString::toInt (&ok)\<close> reads one back. Both belong to the Qt
  library. \<open>QString_toInt\<close> follows the library's reading: white space, an optional sign,
  at least one decimal digit, white space; the value has to fit an \<open>int\<close>. The result
  \<open>None\<close> is \<open>ok == false\<close>.
\<close>

definition digitChar :: "int \<Rightarrow> char" where
  "digitChar d = char_of (48 + d)"

function decimal :: "int \<Rightarrow> string" where
  "decimal n = (if n < 10 then [digitChar n] else decimal (n div 10) @ [digitChar (n mod 10)])"
  by pat_completeness auto
termination
  by (relation "measure nat") auto

definition QString_number :: "cint \<Rightarrow> string" where
  "QString_number w = (if sint w < 0 then CHR ''-'' # decimal (- sint w) else decimal (sint w))"

definition isSpace :: "char \<Rightarrow> bool" where
  "isSpace c = (of_char c \<in> {9, 10, 11, 12, 13, 32 :: int})"

definition isDigit :: "char \<Rightarrow> bool" where
  "isDigit c = (48 \<le> (of_char c :: int) \<and> (of_char c :: int) \<le> 57)"

definition digitsValue :: "string \<Rightarrow> int" where
  "digitsValue ds = foldl (\<lambda>acc c. 10 * acc + (of_char c - 48)) 0 ds"

definition QString_toInt :: "string \<Rightarrow> cint option" where
  "QString_toInt s =
     (let s1 = dropWhile isSpace s;
          neg = (s1 \<noteq> [] \<and> hd s1 = CHR ''-'');
          s2 = (if s1 \<noteq> [] \<and> (hd s1 = CHR ''-'' \<or> hd s1 = CHR ''+'') then tl s1 else s1);
          ds = takeWhile isDigit s2;
          rest = dropWhile isDigit s2
      in if ds = [] \<or> \<not> list_all isSpace rest then None
         else (let v = (if neg then - digitsValue ds else digitsValue ds)
               in if - (2 ^ 31) \<le> v \<and> v \<le> 2 ^ 31 - 1 then Some (word_of_int v) else None))"

subsection \<open>The DOM\<close>

text \<open>
  A DOM node is an element, with its tag name, attributes and child nodes, or a node of
  another kind (text, comment). \<open>toElement()\<close> of such a node, and of no node at all,
  is the null element, which is \<open>QDomOther\<close> too: its tag name is empty.
\<close>

datatype QDomNode =
    QDomElement string "(string \<times> string) list" "QDomNode list"
  | QDomOther

fun setAttribute :: "(string \<times> string) list \<Rightarrow> string \<Rightarrow> string \<Rightarrow> (string \<times> string) list" where
  "setAttribute [] name v = [(name, v)]"
| "setAttribute ((n, x) # as) name v =
     (if n = name then (name, v) # as else (n, x) # setAttribute as name v)"

definition hasAttribute :: "(string \<times> string) list \<Rightarrow> string \<Rightarrow> bool" where
  "hasAttribute as name = (name \<in> fst ` set as)"

definition attribute :: "(string \<times> string) list \<Rightarrow> string \<Rightarrow> string" where
  "attribute as name = (case map_of as name of Some v \<Rightarrow> v | None \<Rightarrow> QString_null)"

definition XML_TOP_ELEMENT :: string where
  "XML_TOP_ELEMENT = ''progress''"

definition XML_QUESTION_ATTR :: string where
  "XML_QUESTION_ATTR = ''question''"

definition XML_CORRECT_ATTR :: string where
  "XML_CORRECT_ATTR = ''correct''"

definition XML_INCORRECT_RESPONSES_ELEMENT :: string where
  "XML_INCORRECT_RESPONSES_ELEMENT = ''incorrect-responses''"

definition XML_MISSED_RESPONSES_ELEMENT :: string where
  "XML_MISSED_RESPONSES_ELEMENT = ''missed-responses''"

definition XML_RESPONSE_ELEMENT :: string where
  "XML_RESPONSE_ELEMENT = ''response''"

definition XML_RESPONSE_WORD_ATTR :: string where
  "XML_RESPONSE_WORD_ATTR = ''word''"

definition XML_RESPONSE_COUNT_ATTR :: string where
  "XML_RESPONSE_COUNT_ATTR = ''count''"

definition responseElement :: "string \<times> cint \<Rightarrow> QDomNode" where
  "responseElement kv =
     QDomElement XML_RESPONSE_ELEMENT
       (setAttribute (setAttribute [] XML_RESPONSE_WORD_ATTR (fst kv))
          XML_RESPONSE_COUNT_ATTR (QString_number (snd kv))) []"

definition asDomElement :: "QuizProgress \<Rightarrow> QDomNode" where
  "asDomElement p =
     QDomElement XML_TOP_ELEMENT
       (setAttribute (setAttribute [] XML_QUESTION_ATTR (QString_number (question p)))
          XML_CORRECT_ATTR (QString_number (correct p)))
       ((if incorrectWords p \<noteq> [] then
           [QDomElement XML_INCORRECT_RESPONSES_ELEMENT [] (map responseElement (incorrectWords p))]
         else []) @
        (if missedWords p \<noteq> [] then
           [QDomElement XML_MISSED_RESPONSES_ELEMENT [] (map responseElement (missedWords p))]
         else []))"

text \<open>
  The loops of \<open>fromDomElement\<close> work on the scratch object \<open>tmpProgress\<close>. They walk
  the child nodes from the first one and end at the first node that is not an element.
  The result \<open>None\<close> is a \<open>return false\<close> inside the loop.
\<close>

fun responseLoop :: "bool \<Rightarrow> QDomNode list \<Rightarrow> QuizProgress \<Rightarrow> QuizProgress option" where
  "responseLoop elemMissed [] tmp = Some tmp"
| "responseLoop elemMissed (QDomOther # siblings) tmp = Some tmp"
| "responseLoop elemMissed (QDomElement tag as cs # siblings) tmp =
     (if \<not> hasAttribute as XML_RESPONSE_WORD_ATTR \<or> \<not> hasAttribute as XML_RESPONSE_COUNT_ATTR
      then None
      else case QString_toInt (attribute as XML_RESPONSE_COUNT_ATTR) of
             None \<Rightarrow> None
           | Some count \<Rightarrow>
               (let word = attribute as XML_RESPONSE_WORD_ATTR
                in responseLoop elemMissed siblings
                     (if elemMissed then addMissed_count tmp word count
                      else addIncorrect_count tmp word count)))"

fun elementLoop :: "QDomNode list \<Rightarrow> QuizProgress \<Rightarrow> QuizProgress option" where
  "elementLoop [] tmp = Some tmp"
| "elementLoop (QDomOther # siblings) tmp = Some tmp"
| "elementLoop (QDomElement tag as cs # siblings) tmp =
     (if tag \<noteq> XML_MISSED_RESPONSES_ELEMENT \<and> tag \<noteq> XML_INCORRECT_RESPONSES_ELEMENT then None
      else case responseLoop (tag = XML_MISSED_RESPONSES_ELEMENT) cs tmp of
             None \<Rightarrow> None
           | Some tmp' \<Rightarrow> elementLoop siblings tmp')"

definition readQuestion :: "(string \<times> string) list \<Rightarrow> QuizProgress \<Rightarrow> QuizProgress option" where
  "readQuestion as tmp =
     (if hasAttribute as XML_QUESTION_ATTR then
        (case QString_toInt (attribute as XML_QUESTION_ATTR) of
           None \<Rightarrow> None
         | Some tmpQuestion \<Rightarrow> Some (setQuestion tmp tmpQuestion))
      else Some tmp)"

definition readCorrect :: "(string \<times> string) list \<Rightarrow> QuizProgress \<Rightarrow> QuizProgress option" where
  "readCorrect as tmp =
     (if hasAttribute as XML_CORRECT_ATTR then
        (case QString_toInt (attribute as XML_CORRECT_ATTR) of
           None \<Rightarrow> None
         | Some tmpCorrect \<Rightarrow> Some (setCorrect tmp tmpCorrect))
      else Some tmp)"

text \<open>
  \<open>fromDomElement\<close> returns its \<open>bool\<close> and the object after the call. Every
  \<open>return false\<close> leaves \<open>*this\<close> as it was; the assignment \<open>*this = tmpProgress\<close>
  is the last step.
\<close>

definition fromDomElement :: "QuizProgress \<Rightarrow> QDomNode \<Rightarrow> bool \<times> QuizProgress" where
  "fromDomElement this element =
     (case element of
        QDomOther \<Rightarrow> (False, this)
      | QDomElement tag as cs \<Rightarrow>
          (if tag \<noteq> XML_TOP_ELEMENT then (False, this)
           else (case readQuestion as QuizProgress_new of
                   None \<Rightarrow> (False, this)
                 | Some tmp1 \<Rightarrow>
                     (case readCorrect as tmp1 of
                        None \<Rightarrow> (False, this)
                      | Some tmp2 \<Rightarrow>
                          (case elementLoop cs tmp2 of
                             None \<Rightarrow> (False, this)
                           | Some tmpProgress \<Rightarrow> (True, tmpProgress))))))"

section \<open>Sessions and histories\<close>

text \<open>A run of \<open>respond\<close> calls, one for each response of the list, in order.\<close>

fun responds :: "QuizEngine \<Rightarrow> string list \<Rightarrow> QuizEngine" where
  "responds s [] = s"
| "responds s (r # rs) = responds (snd (respond s r)) rs"

text \<open>
  \<open>session_run we s s'\<close>: within one session, some sequence of \<open>respond\<close> and
  \<open>nextQuestion\<close> calls leads from the engine state \<open>s\<close> to \<open>s'\<close>.
\<close>

inductive session_run :: "WordEngine \<Rightarrow> QuizEngine \<Rightarrow> QuizEngine \<Rightarrow> bool" for we :: WordEngine where
  run_none: "session_run we s s"
| run_respond: "session_run we s s' \<Longrightarrow> session_run we s (snd (respond s' r))"
| run_nextQuestion:
    "session_run we s s' \<Longrightarrow> nextQuestion we s' = Inr (b, s'') \<Longrightarrow> session_run we s s''"

text \<open>
  \<open>reachable we s\<close>: \<open>s\<close> is a state of the engine at some point after a \<open>newQuiz\<close>
  call. \<open>newQuiz\<close> may be called on any engine, a new one or one that has run quizzes.
\<close>

inductive reachable :: "WordEngine \<Rightarrow> QuizEngine \<Rightarrow> bool" for we :: WordEngine where
  reach_newQuiz: "newQuiz we rnd s0 input type a r = Inr s \<Longrightarrow> reachable we s"
| reach_run: "reachable we s \<Longrightarrow> session_run we s s' \<Longrightarrow> reachable we s'"

text \<open>
  The words a document holds for one kind of response (\<open>kind\<close> is \<open>elemMissed\<close>), in the
  order in which \<open>fromDomElement\<close> reads them.
\<close>

fun loopWords :: "QDomNode list \<Rightarrow> string list" where
  "loopWords [] = []"
| "loopWords (QDomOther # siblings) = []"
| "loopWords (QDomElement tag as cs # siblings) =
     attribute as XML_RESPONSE_WORD_ATTR # loopWords siblings"

fun docWords :: "bool \<Rightarrow> QDomNode list \<Rightarrow> string list" where
  "docWords kind [] = []"
| "docWords kind (QDomOther # siblings) = []"
| "docWords kind (QDomElement tag as cs # siblings) =
     (if (tag = XML_MISSED_RESPONSES_ELEMENT) = kind then loopWords cs else [])
       @ docWords kind siblings"

definition words_distinct :: "QDomNode \<Rightarrow> bool" where
  "words_distinct element =
     (case element of
        QDomOther \<Rightarrow> True
      | QDomElement tag as cs \<Rightarrow> distinct (docWords False cs) \<and> distinct (docWords True cs))"

text \<open>
  \<open>fresh_words_history p\<close>: \<open>p\<close> comes from a new object by setters, one-word additions,
  counted additions of a word that its map does not hold yet, and successful
  \<open>fromDomElement\<close> calls on documents that repeat no word within a kind.
\<close>

inductive fresh_words_history :: "QuizProgress \<Rightarrow> bool" where
  hist_new: "fresh_words_history QuizProgress_new"
| hist_setQuestion: "fresh_words_history p \<Longrightarrow> fresh_words_history (setQuestion p q)"
| hist_setCorrect: "fresh_words_history p \<Longrightarrow> fresh_words_history (setCorrect p c)"
| hist_addIncorrect: "fresh_words_history p \<Longrightarrow> fresh_words_history (addIncorrect p w)"
| hist_addMissed: "fresh_words_history p \<Longrightarrow> fresh_words_history (addMissed p w)"
| hist_addIncorrect_count:
    "fresh_words_history p \<Longrightarrow> \<not> qmap_contains (incorrectWords p) w
       \<Longrightarrow> fresh_words_history (addIncorrect_count p w c)"
| hist_addMissed_count:
    "fresh_words_history p \<Longrightarrow> \<not> qmap_contains (missedWords p) w
       \<Longrightarrow> fresh_words_history (addMissed_count p w c)"
| hist_fromDomElement:
    "fresh_words_history p \<Longrightarrow> fromDomElement p element = (True, p') \<Longrightarrow> words_distinct element
       \<Longrightarrow> fresh_words_history p'"

section \<open>Example data\<close>

text \<open>
  A small lexicon service: \<open>act\<close>, \<open>cat\<close>, \<open>opt\<close>, \<open>pot\<close> and \<open>top\<close> are its words of
  three letters, and the alphagram of a word is the word with its letters in order.
\<close>

definition stubEngine :: WordEngine where
  "stubEngine =
     \<lparr>matchPattern = (\<lambda>q. if q = ''???'' then [''act'', ''cat'', ''opt'', ''pot'', ''top''] else []),
      matchAnagram = (\<lambda>q. if q = ''act'' then [''act'', ''cat'']
                           else if q = ''opt'' then [''opt'', ''pot'', ''top''] else []),
      matchSubanagram = (\<lambda>q. if q = ''act'' then [''act'', ''at'', ''cat'', ''ta''] else []),
      alphagrams = (\<lambda>ws. remdups (map sort ws))\<rparr>"

text \<open>An engine that has not run a quiz yet, and a source of random numbers.\<close>

definition blankEngine :: QuizEngine where
  "blankEngine =
     \<lparr>quizQuestions = [], quizType = UnknownMatchType, questionIndex = 0,
      correctResponses = [], correctUserResponses = [], incorrectUserResponses = [],
      quizTotal = 0, quizCorrect = 0, quizIncorrect = 0\<rparr>"

definition stubRand :: "nat \<Rightarrow> nat" where
  "stubRand i = 7 * i + 3"

text \<open>The session of the query \<open>act\<close> as an anagram quiz, at its only question.\<close>

definition actQuiz :: QuizEngine where
  "actQuiz =
     \<lparr>quizQuestions = [''act''], quizType = Anagram, questionIndex = 0,
      correctResponses = [''act'', ''cat''], correctUserResponses = [],
      incorrectUserResponses = [], quizTotal = 2, quizCorrect = 0, quizIncorrect = 0\<rparr>"

text \<open>The session of the pattern \<open>???\<close> with alphagrams, at its first question.\<close>

definition patternQuiz :: QuizEngine where
  "patternQuiz =
     \<lparr>quizQuestions = [''act'', ''opt''], quizType = Anagram, questionIndex = 0,
      correctResponses = [''act'', ''cat''], correctUserResponses = [],
      incorrectUserResponses = [], quizTotal = 2, quizCorrect = 0, quizIncorrect = 0\<rparr>"

text \<open>The word \<open>a\<close> added twice with a count: first 2, then 3.\<close>

definition twiceCounted :: QuizProgress where
  "twiceCounted = addIncorrect_count (addIncorrect_count QuizProgress_new ''a'' 2) ''a'' 3"

text \<open>The word \<open>zax\<close> answered wrongly twice, and \<open>cat\<close> missed four times.\<close>

definition zaxProgress :: QuizProgress where
  "zaxProgress =
     addMissed_count (addIncorrect (addIncorrect (setQuestion QuizProgress_new 3) ''zax'') ''zax'')
       ''cat'' 4"

text \<open>A document whose response element has no \<open>count\<close> attribute.\<close>

definition noCountDocument :: QDomNode where
  "noCountDocument =
     QDomElement ''progress'' [(''question'', ''1'')]
       [QDomElement ''incorrect-responses'' [] [QDomElement ''response'' [(''word'', ''zax'')] []]]"

section \<open>Invariants\<close>

text \<open>
  The containers of the current question: both are sets in iteration order, and the user's
  correct responses are among the correct answers.
\<close>

definition session_inv :: "QuizEngine \<Rightarrow> bool" where
  "session_inv s \<longleftrightarrow>
     set_ok (correctResponses s) \<and> set_ok (correctUserResponses s) \<and>
     set (correctUserResponses s) \<subseteq> set (correctResponses s)"

text \<open>
  The maps of a \<open>QuizProgress\<close> are in key order and each counter is the sum of the counts
  of its map. \<open>wordsOf kind p\<close> is the set of keys of the map of one kind.
\<close>

definition progress_inv :: "QuizProgress \<Rightarrow> bool" where
  "progress_inv p \<longleftrightarrow>
     qmap_ok (incorrectWords p) \<and> qmap_ok (missedWords p) \<and>
     incorrect p = sum_values (incorrectWords p) \<and> missed p = sum_values (missedWords p)"

definition wordsOf :: "bool \<Rightarrow> QuizProgress \<Rightarrow> string set" where
  "wordsOf kind p = fst ` set (if kind then missedWords p else incorrectWords p)"

text \<open>A session without questions: no word of the lexicon is an anagram of \<open>xyz\<close>.\<close>

definition emptyQuiz :: QuizEngine where
  "emptyQuiz =
     \<lparr>quizQuestions = [], quizType = Anagram, questionIndex = 0,
      correctResponses = [], correctUserResponses = [], incorrectUserResponses = [],
      quizTotal = 0, quizCorrect = 0, quizIncorrect = 0\<rparr>"

text \<open>
  The largest \<open>int\<close>. A \<open>respond\<close> call fits when the counter it steps is below it, and
  a \<open>nextQuestion\<close> call from \<open>s\<close> to \<open>s'\<close> fits when the answers of the new question,
  added to the total, do not pass it. \<open>fitting_run we s s'\<close>: some sequence of such calls
  leads from \<open>s\<close> to \<open>s'\<close>.
\<close>

definition INT_MAX :: int where
  "INT_MAX = 2147483647"

definition respond_fits :: "QuizEngine \<Rightarrow> string \<Rightarrow> bool" where
  "respond_fits s r =
     (case fst (respond s r) of
        Incorrect \<Rightarrow> sint (quizIncorrect s) < INT_MAX
      | Correct \<Rightarrow> sint (quizCorrect s) < INT_MAX
      | Duplicate \<Rightarrow> True)"

definition advance_fits :: "QuizEngine \<Rightarrow> QuizEngine \<Rightarrow> bool" where
  "advance_fits s s' =
     (onLastQuestion s \<or> sint (quizTotal s) + int (length (correctResponses s')) \<le> INT_MAX)"

inductive fitting_run :: "WordEngine \<Rightarrow> QuizEngine \<Rightarrow> QuizEngine \<Rightarrow> bool" for we :: WordEngine where
  fit_none: "fitting_run we s s"
| fit_respond:
    "fitting_run we s s' \<Longrightarrow> respond_fits s' r \<Longrightarrow> fitting_run we s (snd (respond s' r))"
| fit_nextQuestion:
    "fitting_run we s s' \<Longrightarrow> nextQuestion we s' = Inr (b, s'') \<Longrightarrow> advance_fits s' s''
       \<Longrightarrow> fitting_run we s s''"

text \<open>A comment, and after it a child with a tag that no progress document has.\<close>

definition commentedDocument :: QDomNode where
  "commentedDocument =
     QDomElement ''progress'' [(''question'', ''7'')] [QDomOther, QDomElement ''bogus'' [] []]"

text \<open>A comment, and after it a response without its count.\<close>

definition commentedResponses :: QDomNode where
  "commentedResponses =
     QDomElement ''progress'' [(''question'', ''7'')]
       [QDomElement ''incorrect-responses'' []
          [QDomOther, QDomElement ''response'' [(''word'', ''zax'')] []]]"

section \<open>The example sessions\<close>

text \<open>The three example sessions are what \<open>newQuiz\<close> builds from the small lexicon.\<close>

lemma actQuiz_newQuiz:
  "newQuiz stubEngine stubRand blankEngine ''act'' Anagram False False = Inr actQuiz"
  by code_simp

lemma patternQuiz_newQuiz:
  "newQuiz stubEngine stubRand blankEngine ''???'' Pattern True False = Inr patternQuiz"
  by code_simp

lemma emptyQuiz_newQuiz:
  "newQuiz stubEngine stubRand blankEngine ''xyz'' Anagram True False = Inr emptyQuiz"
  by code_simp

section \<open>Properties of the ordered containers\<close>

lemma set_insert_set: "set (set_insert x xs) = insert x (set xs)"
  by (auto simp: set_insert_def set_insort_key)

lemma set_insert_ok: "set_ok xs \<Longrightarrow> set_ok (set_insert x xs)"
  by (simp add: set_insert_def set_ok_def sorted_insort distinct_insort)

lemma insertAll_set: "set (insertAll as acc) = set as \<union> set acc"
  by (induction as arbitrary: acc) (auto simp: set_insert_set)

lemma insertAll_ok: "set_ok acc \<Longrightarrow> set_ok (insertAll as acc)"
  by (induction as arbitrary: acc) (simp_all add: set_insert_ok)

lemma set_ok_Nil: "set_ok []"
  by (simp add: set_ok_def)

section \<open>respond\<close>

lemma respond_incorrect:
  "r \<notin> set (correctResponses s) \<Longrightarrow>
   respond s r = (Incorrect, s\<lparr>incorrectUserResponses := incorrectUserResponses s @ [r],
                               quizIncorrect := quizIncorrect s + 1\<rparr>)"
  by (simp add: respond_def)

lemma respond_duplicate:
  "r \<in> set (correctResponses s) \<Longrightarrow> r \<in> set (correctUserResponses s) \<Longrightarrow>
   respond s r = (Duplicate, s)"
  by (simp add: respond_def)

lemma respond_correct:
  "r \<in> set (correctResponses s) \<Longrightarrow> r \<notin> set (correctUserResponses s) \<Longrightarrow>
   respond s r = (Correct, s\<lparr>correctUserResponses := set_insert r (correctUserResponses s),
                             quizCorrect := quizCorrect s + 1\<rparr>)"
  by (simp add: respond_def)

lemma respond_correctResponses: "correctResponses (snd (respond s r)) = correctResponses s"
  by (simp add: respond_def)

lemma respond_quizQuestions: "quizQuestions (snd (respond s r)) = quizQuestions s"
  by (simp add: respond_def)

lemma respond_questionIndex: "questionIndex (snd (respond s r)) = questionIndex s"
  by (simp add: respond_def)

lemma respond_quizTotal: "quizTotal (snd (respond s r)) = quizTotal s"
  by (simp add: respond_def)

lemma respond_quizType: "quizType (snd (respond s r)) = quizType s"
  by (simp add: respond_def)

lemma respond_userCorrect_grows:
  "set (correctUserResponses s) \<subseteq> set (correctUserResponses (snd (respond s r)))"
  by (auto simp: respond_def set_insert_set)

lemma respond_accepts:
  "r \<in> set (correctResponses s) \<Longrightarrow> r \<in> set (correctUserResponses (snd (respond s r)))"
  by (simp add: respond_def set_insert_set)

lemma responds_correctResponses: "correctResponses (responds s rs) = correctResponses s"
  by (induction rs arbitrary: s) (simp_all add: respond_correctResponses)

lemma responds_userCorrect_grows:
  "set (correctUserResponses s) \<subseteq> set (correctUserResponses (responds s rs))"
proof (induction rs arbitrary: s)
  case Nil
  show ?case by simp
next
  case (Cons r rs)
  have "set (correctUserResponses s) \<subseteq> set (correctUserResponses (snd (respond s r)))"
    by (rule respond_userCorrect_grows)
  also have "\<dots> \<subseteq> set (correctUserResponses (responds (snd (respond s r)) rs))"
    by (rule Cons.IH)
  finally show ?case by simp
qed

lemma responds_replicate_incorrect:
  "r \<notin> set (correctResponses s) \<Longrightarrow>
   responds s (replicate n r) =
     s\<lparr>incorrectUserResponses := incorrectUserResponses s @ replicate n r,
       quizIncorrect := quizIncorrect s + of_nat n\<rparr>"
proof (induction n arbitrary: s)
  case 0
  show ?case by simp
next
  case (Suc n)
  let ?s1 = "s\<lparr>incorrectUserResponses := incorrectUserResponses s @ [r],
                quizIncorrect := quizIncorrect s + 1\<rparr>"
  have step: "snd (respond s r) = ?s1"
    using Suc.prems by (simp add: respond_incorrect)
  have notin: "r \<notin> set (correctResponses ?s1)"
    using Suc.prems by simp
  have "responds s (replicate (Suc n) r) = responds ?s1 (replicate n r)"
    by (simp add: step)
  also have "\<dots> = ?s1\<lparr>incorrectUserResponses := incorrectUserResponses ?s1 @ replicate n r,
                       quizIncorrect := quizIncorrect ?s1 + of_nat n\<rparr>"
    by (rule Suc.IH [OF notin])
  also have "\<dots> = s\<lparr>incorrectUserResponses := incorrectUserResponses s @ replicate (Suc n) r,
                     quizIncorrect := quizIncorrect s + of_nat (Suc n)\<rparr>"
    by simp
  finally show ?case .
qed

text \<open>
  Claim C1. \<open>respond\<close> classifies in this order. A response that is not a correct answer
  is appended to the incorrect responses and counted, and the result is \<open>Incorrect\<close>; given
  \<open>n\<close> times in a row it is appended \<open>n\<close> times and adds \<open>n\<close> to the counter. A correct
  answer that the user has given before is a \<open>Duplicate\<close> and changes nothing. Any other
  correct answer joins the user's correct responses and is counted, and the result is
  \<open>Correct\<close>. Once a correct answer has been given, the same response is a \<open>Duplicate\<close>
  and changes nothing, whatever responses \<open>rs\<close> came in between.
\<close>

theorem respond_classification:
  "(r \<notin> set (correctResponses s) \<longrightarrow>
      respond s r = (Incorrect, s\<lparr>incorrectUserResponses := incorrectUserResponses s @ [r],
                                  quizIncorrect := quizIncorrect s + 1\<rparr>) \<and>
      responds s (replicate n r) =
        s\<lparr>incorrectUserResponses := incorrectUserResponses s @ replicate n r,
          quizIncorrect := quizIncorrect s + of_nat n\<rparr>) \<and>
   (r \<in> set (correctResponses s) \<and> r \<in> set (correctUserResponses s) \<longrightarrow>
      respond s r = (Duplicate, s)) \<and>
   (r \<in> set (correctResponses s) \<and> r \<notin> set (correctUserResponses s) \<longrightarrow>
      fst (respond s r) = Correct \<and>
      set (correctUserResponses (snd (respond s r))) = insert r (set (correctUserResponses s)) \<and>
      quizCorrect (snd (respond s r)) = quizCorrect s + 1 \<and>
      quizIncorrect (snd (respond s r)) = quizIncorrect s \<and>
      incorrectUserResponses (snd (respond s r)) = incorrectUserResponses s) \<and>
   (r \<in> set (correctResponses s) \<longrightarrow>
      respond (responds (snd (respond s r)) rs) r = (Duplicate, responds (snd (respond s r)) rs))"
proof (intro conjI impI)
  assume "r \<notin> set (correctResponses s)"
  then show "respond s r = (Incorrect, s\<lparr>incorrectUserResponses := incorrectUserResponses s @ [r],
                                  quizIncorrect := quizIncorrect s + 1\<rparr>)"
    by (rule respond_incorrect)
next
  assume "r \<notin> set (correctResponses s)"
  then show "responds s (replicate n r) =
        s\<lparr>incorrectUserResponses := incorrectUserResponses s @ replicate n r,
          quizIncorrect := quizIncorrect s + of_nat n\<rparr>"
    by (rule responds_replicate_incorrect)
next
  assume "r \<in> set (correctResponses s) \<and> r \<in> set (correctUserResponses s)"
  then show "respond s r = (Duplicate, s)"
    by (simp add: respond_duplicate)
next
  assume a: "r \<in> set (correctResponses s) \<and> r \<notin> set (correctUserResponses s)"
  then have eq: "respond s r = (Correct, s\<lparr>correctUserResponses := set_insert r (correctUserResponses s),
                             quizCorrect := quizCorrect s + 1\<rparr>)"
    by (simp add: respond_correct)
  show "fst (respond s r) = Correct" by (simp add: eq)
  show "set (correctUserResponses (snd (respond s r))) = insert r (set (correctUserResponses s))"
    by (simp add: eq set_insert_set)
  show "quizCorrect (snd (respond s r)) = quizCorrect s + 1" by (simp add: eq)
  show "quizIncorrect (snd (respond s r)) = quizIncorrect s" by (simp add: eq)
  show "incorrectUserResponses (snd (respond s r)) = incorrectUserResponses s" by (simp add: eq)
next
  assume a: "r \<in> set (correctResponses s)"
  let ?s2 = "responds (snd (respond s r)) rs"
  have "r \<in> set (correctUserResponses (snd (respond s r)))"
    using a by (rule respond_accepts)
  then have "r \<in> set (correctUserResponses ?s2)"
    using responds_userCorrect_grows by blast
  moreover have "r \<in> set (correctResponses ?s2)"
    using a by (simp add: responds_correctResponses respond_correctResponses)
  ultimately show "respond ?s2 r = (Duplicate, ?s2)"
    by (simp add: respond_duplicate)
qed

text \<open>
  The session of \<open>act\<close>: \<open>dog\<close> is no answer, \<open>cat\<close> is one and is a duplicate the second
  time.
\<close>

theorem respond_classification_witness:
  "''dog'' \<notin> set (correctResponses actQuiz) \<and>
   respond actQuiz ''dog'' =
     (Incorrect, actQuiz\<lparr>incorrectUserResponses := [''dog''], quizIncorrect := 1\<rparr>) \<and>
   responds actQuiz [''dog'', ''dog''] =
     actQuiz\<lparr>incorrectUserResponses := [''dog'', ''dog''], quizIncorrect := 2\<rparr> \<and>
   ''cat'' \<in> set (correctResponses actQuiz) \<and> ''cat'' \<notin> set (correctUserResponses actQuiz) \<and>
   fst (respond actQuiz ''cat'') = Correct \<and>
   correctUserResponses (snd (respond actQuiz ''cat'')) = [''cat''] \<and>
   quizCorrect (snd (respond actQuiz ''cat'')) = 1 \<and>
   respond (responds (snd (respond actQuiz ''cat'')) [''dog'']) ''cat'' =
     (Duplicate, responds (snd (respond actQuiz ''cat'')) [''dog''])"
proof -
  have dog: "''dog'' \<notin> set (correctResponses actQuiz)"
    by (simp add: actQuiz_def)
  have cat: "''cat'' \<in> set (correctResponses actQuiz) \<and> ''cat'' \<notin> set (correctUserResponses actQuiz)"
    by (simp add: actQuiz_def)
  have user: "correctUserResponses (snd (respond actQuiz ''cat'')) = [''cat'']"
    by (simp add: actQuiz_def respond_def set_insert_def)
  from respond_classification [where r = "''dog''" and s = actQuiz and n = 2 and rs = "[]"]
    respond_classification [where r = "''cat''" and s = actQuiz and n = 0 and rs = "[''dog'']"]
    dog cat user
  show ?thesis
    by (simp add: actQuiz_def numeral_2_eq_2 respond_def set_insert_def)
qed

text \<open>
  Claim C9. When the current question has no correct answer, every response is
  \<open>Incorrect\<close>: it is appended to the incorrect responses and the counter goes up by one.
  \<open>respond\<close> is a total function into the three statuses, so there is no other outcome.
\<close>

theorem respond_no_answers:
  "correctResponses s = [] \<Longrightarrow>
   respond s r = (Incorrect, s\<lparr>incorrectUserResponses := incorrectUserResponses s @ [r],
                               quizIncorrect := quizIncorrect s + 1\<rparr>)"
  by (simp add: respond_def)

text \<open>The session without questions.\<close>

theorem respond_no_answers_witness:
  "correctResponses emptyQuiz = [] \<and>
   respond emptyQuiz ''cat'' =
     (Incorrect, emptyQuiz\<lparr>incorrectUserResponses := [''cat''], quizIncorrect := 1\<rparr>)"
proof -
  have h: "correctResponses emptyQuiz = []" by (simp add: emptyQuiz_def)
  from respond_no_answers [OF h, of "''cat''"] h show ?thesis
    by (simp add: emptyQuiz_def)
qed

text \<open>
  Claim C10. \<open>respond\<close> leaves the question list, the cursor, the correct answers, the
  total of possible answers and the quiz type as they are: the state after the call is the
  state before it with other values for the user's correct responses, the incorrect
  responses and their two counters, and nothing else.
\<close>

theorem respond_frame:
  "quizQuestions (snd (respond s r)) = quizQuestions s \<and>
   questionIndex (snd (respond s r)) = questionIndex s \<and>
   correctResponses (snd (respond s r)) = correctResponses s \<and>
   quizTotal (snd (respond s r)) = quizTotal s \<and>
   quizType (snd (respond s r)) = quizType s \<and>
   snd (respond s r) =
     s\<lparr>correctUserResponses := correctUserResponses (snd (respond s r)),
       incorrectUserResponses := incorrectUserResponses (snd (respond s r)),
       quizCorrect := quizCorrect (snd (respond s r)),
       quizIncorrect := quizIncorrect (snd (respond s r))\<rparr>"
  by (simp add: respond_def)

text \<open>The session of \<open>act\<close> after the response \<open>cat\<close>.\<close>

theorem respond_frame_witness:
  "quizQuestions (snd (respond actQuiz ''cat'')) = [''act''] \<and>
   questionIndex (snd (respond actQuiz ''cat'')) = 0 \<and>
   correctResponses (snd (respond actQuiz ''cat'')) = [''act'', ''cat''] \<and>
   quizTotal (snd (respond actQuiz ''cat'')) = 2"
  using respond_frame [of actQuiz "''cat''"] by (simp add: actQuiz_def)

section \<open>prepareQuestion, nextQuestion, newQuiz\<close>

lemma prepareQuestion_result:
  assumes "prepareQuestion we s = Inr s'"
  shows "set_ok (correctResponses s')" and "correctUserResponses s' = []"
    and "incorrectUserResponses s' = []"
    and "quizQuestions s' = quizQuestions s" and "questionIndex s' = questionIndex s"
    and "quizType s' = quizType s"
    and "quizCorrect s' = quizCorrect s" and "quizIncorrect s' = quizIncorrect s"
    and "quizTotal s' = quizTotal s + of_nat (length (correctResponses s'))"
  using assms
  by (auto simp: prepareQuestion_def clearQuestion_def Let_def insertAll_ok set_ok_Nil
      split: sum.splits)

lemma prepareQuestion_in_range:
  "0 \<le> sint (questionIndex s) \<Longrightarrow> sint (questionIndex s) \<le> int (length (quizQuestions s)) \<Longrightarrow>
   \<exists>s'. prepareQuestion we s = Inr s'"
  by (auto simp: prepareQuestion_def clearQuestion_def getQuestion_def Let_def)

lemma newQuiz_total: "\<exists>s. newQuiz we rnd s0 input t a r = Inr s"
  unfolding newQuiz_def Let_def
  by (rule prepareQuestion_in_range) simp_all

lemma shuffle_single: "shuffle rnd (Suc 0) [0] [q] = [q]"
  by simp

lemma newQuiz_result:
  assumes "newQuiz we rnd s0 input t a r = Inr s"
  shows "quizType s = (if a \<and> t = Pattern then Anagram else t)"
    and "\<not> a \<Longrightarrow> quizQuestions s = [input]"
    and "questionIndex s = 0" and "quizCorrect s = 0" and "quizIncorrect s = 0"
    and "quizTotal s = of_nat (length (correctResponses s))"
    and "set_ok (correctResponses s)" and "correctUserResponses s = []"
    and "incorrectUserResponses s = []"
proof -
  obtain s4 where prep: "prepareQuestion we s4 = Inr s"
    and ty: "quizType s4 = (if a \<and> t = Pattern then Anagram else t)"
    and qs: "\<not> a \<longrightarrow> quizQuestions s4 = [input]"
    and ix: "questionIndex s4 = 0" and c: "quizCorrect s4 = 0" and i: "quizIncorrect s4 = 0"
    and tot: "quizTotal s4 = 0"
    using assms unfolding newQuiz_def Let_def
    by (cases t; cases a; cases r) auto
  note res = prepareQuestion_result [OF prep]
  show "quizType s = (if a \<and> t = Pattern then Anagram else t)" using res(6) ty by simp
  show "\<not> a \<Longrightarrow> quizQuestions s = [input]" using res(4) qs by simp
  show "questionIndex s = 0" using res(5) ix by simp
  show "quizCorrect s = 0" using res(7) c by simp
  show "quizIncorrect s = 0" using res(8) i by simp
  show "quizTotal s = of_nat (length (correctResponses s))" using res(9) tot by simp
  show "set_ok (correctResponses s)" by (rule res(1))
  show "correctUserResponses s = []" by (rule res(2))
  show "incorrectUserResponses s = []" by (rule res(3))
qed

lemma nextQuestion_last:
  "onLastQuestion s \<Longrightarrow> nextQuestion we s = Inr (Some False, s)"
  by (simp add: nextQuestion_def)

lemma nextQuestion_advance:
  assumes "\<not> onLastQuestion s" and "nextQuestion we s = Inr (b, s')"
  shows "b = None" and "prepareQuestion we (s\<lparr>questionIndex := questionIndex s + 1\<rparr>) = Inr s'"
  using assms by (auto simp: nextQuestion_def split: sum.splits)

lemma nextQuestion_result:
  assumes "nextQuestion we s = Inr (b, s')"
  shows "quizQuestions s' = quizQuestions s" and "quizType s' = quizType s"
    and "quizCorrect s' = quizCorrect s" and "quizIncorrect s' = quizIncorrect s"
    and "quizTotal s' =
           quizTotal s + (if onLastQuestion s then 0 else of_nat (length (correctResponses s')))"
proof -
  consider (last) "onLastQuestion s" "s' = s"
    | (adv) "\<not> onLastQuestion s"
        "prepareQuestion we (s\<lparr>questionIndex := questionIndex s + 1\<rparr>) = Inr s'"
    using assms by (auto simp: nextQuestion_def split: if_splits sum.splits)
  then have "quizQuestions s' = quizQuestions s \<and> quizType s' = quizType s \<and>
      quizCorrect s' = quizCorrect s \<and> quizIncorrect s' = quizIncorrect s \<and>
      quizTotal s' =
        quizTotal s + (if onLastQuestion s then 0 else of_nat (length (correctResponses s')))"
  proof cases
    case last
    then show ?thesis by simp
  next
    case adv
    from prepareQuestion_result [OF adv(2)] adv(1) show ?thesis by simp
  qed
  then show "quizQuestions s' = quizQuestions s" and "quizType s' = quizType s"
    and "quizCorrect s' = quizCorrect s" and "quizIncorrect s' = quizIncorrect s"
    and "quizTotal s' =
           quizTotal s + (if onLastQuestion s then 0 else of_nat (length (correctResponses s')))"
    by simp_all
qed

lemma sint_succ: "sint (w :: cint) < 2147483647 \<Longrightarrow> sint (w + 1) = sint w + 1"
proof -
  assume lt: "sint w < 2147483647"
  have "sint (w + 1) = signed_take_bit 31 (sint w + 1)"
    by (simp add: sint_word_ariths)
  also have "\<dots> = sint w + 1"
    using lt sint_ge [of w] by (simp add: signed_take_bit_int_eq_self)
  finally show ?thesis .
qed

text \<open>In range, the advancing path does not fault.\<close>

lemma nextQuestion_in_range:
  assumes "0 \<le> sint (questionIndex s)"
    and "sint (questionIndex s) < int (length (quizQuestions s))"
    and "length (quizQuestions s) < 2147483648"
  shows "\<exists>b s'. nextQuestion we s = Inr (b, s')"
proof (cases "onLastQuestion s")
  case True
  then show ?thesis by (simp add: nextQuestion_def)
next
  case False
  have "sint (questionIndex s + 1) = sint (questionIndex s) + 1"
    using assms by (intro sint_succ) simp
  then have "\<exists>s'. prepareQuestion we (s\<lparr>questionIndex := questionIndex s + 1\<rparr>) = Inr s'"
    using assms by (intro prepareQuestion_in_range) simp_all
  then show ?thesis using False by (auto simp: nextQuestion_def)
qed

text \<open>
  The answers of a question are what the lexicon gives for it, also for the null question
  of a session without questions.
\<close>

lemma prepareQuestion_answers:
  assumes "prepareQuestion we s = Inr s'" and "getQuestion s = Inr q"
  shows "set (correctResponses s') = set (matchFor we (quizType s) q)"
  using assms
  by (auto simp: prepareQuestion_def clearQuestion_def getQuestion_def Let_def insertAll_set
      split: sum.splits if_splits)

lemma newQuiz_no_questions:
  assumes "newQuiz we rnd s0 input t a r = Inr s" and "quizQuestions s = []"
  shows "set (correctResponses s) = set (matchFor we (quizType s) QString_null)"
proof -
  obtain s4 where prep: "prepareQuestion we s4 = Inr s" and ix: "questionIndex s4 = 0"
    using assms(1) unfolding newQuiz_def Let_def by (cases t; cases a; cases r) auto
  note res = prepareQuestion_result [OF prep]
  have "quizQuestions s4 = []" using res(4) assms(2) by simp
  then have "getQuestion s4 = Inr QString_null"
    using ix by (simp add: getQuestion_def)
  from prepareQuestion_answers [OF prep this] res(6) show ?thesis by simp
qed

text \<open>
  Where \<open>nextQuestion\<close> advances within the list it ends without a value; in a session
  without questions it reads the list out of range.
\<close>

lemma nextQuestion_advances:
  assumes "0 \<le> sint (questionIndex s)"
    and "sint (questionIndex s) < int (length (quizQuestions s)) - 1"
    and "length (quizQuestions s) < 2147483648"
  shows "\<exists>s'. nextQuestion we s = Inr (None, s') \<and> questionIndex s' = questionIndex s + 1 \<and>
           prepareQuestion we (s\<lparr>questionIndex := questionIndex s + 1\<rparr>) = Inr s'"
proof -
  have nl: "\<not> onLastQuestion s" using assms by (simp add: onLastQuestion_def)
  have "sint (questionIndex s + 1) = sint (questionIndex s) + 1"
    using assms by (intro sint_succ) simp
  then obtain s' where
    p: "prepareQuestion we (s\<lparr>questionIndex := questionIndex s + 1\<rparr>) = Inr s'"
    using prepareQuestion_in_range [of "s\<lparr>questionIndex := questionIndex s + 1\<rparr>" we] assms
    by auto
  from prepareQuestion_result(5) [OF p] have "questionIndex s' = questionIndex s + 1" by simp
  with nl p show ?thesis by (simp add: nextQuestion_def)
qed

lemma nextQuestion_no_questions:
  "quizQuestions s = [] \<Longrightarrow> questionIndex s = 0 \<Longrightarrow> nextQuestion we s = Inl OutOfRange"
  by (simp add: nextQuestion_def onLastQuestion_def prepareQuestion_def clearQuestion_def
      getQuestion_def)

section \<open>Invariants of a session\<close>

lemma respond_inv: "session_inv s \<Longrightarrow> session_inv (snd (respond s r))"
  by (auto simp: session_inv_def respond_def set_insert_ok set_insert_set)

lemma prepareQuestion_inv: "prepareQuestion we s = Inr s' \<Longrightarrow> session_inv s'"
  using prepareQuestion_result(1,2) [of we s s'] by (simp add: session_inv_def set_ok_Nil)

lemma nextQuestion_inv:
  "session_inv s \<Longrightarrow> nextQuestion we s = Inr (b, s') \<Longrightarrow> session_inv s'"
  by (auto simp: nextQuestion_def prepareQuestion_inv split: if_splits sum.splits)

lemma newQuiz_inv: "newQuiz we rnd s0 input t a r = Inr s \<Longrightarrow> session_inv s"
  unfolding newQuiz_def Let_def by (rule prepareQuestion_inv)

lemma session_run_inv: "session_run we s s' \<Longrightarrow> session_inv s \<Longrightarrow> session_inv s'"
  by (induction rule: session_run.induct) (auto intro: respond_inv nextQuestion_inv)

lemma reachable_inv: "reachable we s \<Longrightarrow> session_inv s"
  by (induction rule: reachable.induct) (auto intro: newQuiz_inv session_run_inv)

lemma getMissed_sorted_distinct:
  "set_ok (correctResponses s) \<Longrightarrow> sorted (getMissed s) \<and> distinct (getMissed s)"
  by (simp add: getMissed_def set_ok_def sorted_wrt_filter)

lemma getMissed_set: "set (getMissed s) = set (correctResponses s) - set (correctUserResponses s)"
  by (auto simp: getMissed_def)

text \<open>
  Claim C7. At every point of a session, \<open>getMissed\<close> is the list of the correct answers
  that the user has not given, in ascending order, so the user's correct responses and the
  missed ones partition the correct answers: their union is the set of correct answers
  and they have no element in common.
\<close>

theorem getMissed_partition:
  "reachable we s \<Longrightarrow>
   getMissed s = sorted_list_of_set (set (correctResponses s) - set (correctUserResponses s)) \<and>
   set (correctUserResponses s) \<union> set (getMissed s) = set (correctResponses s) \<and>
   set (correctUserResponses s) \<inter> set (getMissed s) = {}"
proof -
  assume "reachable we s"
  then have inv: "session_inv s" by (rule reachable_inv)
  then have sd: "sorted (getMissed s) \<and> distinct (getMissed s)"
    by (simp add: session_inv_def getMissed_sorted_distinct)
  have "sorted_list_of_set (set (getMissed s)) = getMissed s"
    using sd by (simp add: sorted_list_of_set.idem_if_sorted_distinct)
  then have "getMissed s =
      sorted_list_of_set (set (correctResponses s) - set (correctUserResponses s))"
    by (simp add: getMissed_set)
  moreover have "set (correctUserResponses s) \<union> set (getMissed s) = set (correctResponses s)"
    using inv by (auto simp: getMissed_set session_inv_def)
  moreover have "set (correctUserResponses s) \<inter> set (getMissed s) = {}"
    by (auto simp: getMissed_set)
  ultimately show ?thesis by simp
qed

text \<open>The session of \<open>act\<close> after the response \<open>cat\<close>: \<open>act\<close> is missed.\<close>

theorem getMissed_partition_witness:
  "reachable stubEngine (snd (respond actQuiz ''cat'')) \<and>
   getMissed (snd (respond actQuiz ''cat'')) = [''act''] \<and>
   set (correctUserResponses (snd (respond actQuiz ''cat'')))
     \<union> set (getMissed (snd (respond actQuiz ''cat''))) = {''act'', ''cat''}"
proof -
  have "reachable stubEngine actQuiz"
    by (rule reach_newQuiz [OF actQuiz_newQuiz])
  then have r: "reachable stubEngine (snd (respond actQuiz ''cat''))"
    by (rule reach_run) (rule run_respond [OF run_none])
  have c: "correctResponses (snd (respond actQuiz ''cat'')) = [''act'', ''cat'']"
    by (simp add: respond_def actQuiz_def)
  have m: "getMissed (snd (respond actQuiz ''cat'')) = [''act'']"
    by (simp add: getMissed_def respond_def actQuiz_def set_insert_def)
  from getMissed_partition [OF r] r m c show ?thesis
    by auto
qed

section \<open>The counters within a session\<close>

lemma sint_add_of_nat:
  assumes "sint (w :: cint) + int n \<le> INT_MAX"
  shows "sint (w + of_nat n) = sint w + int n"
proof -
  have "w + of_nat n = word_of_int (sint w + int n)"
    by simp
  then have "sint (w + of_nat n) = signed_take_bit 31 (sint w + int n)"
    by (simp only: sint_sbintrunc') simp
  also have "\<dots> = sint w + int n"
    using assms sint_ge [of w] by (simp add: signed_take_bit_int_eq_self INT_MAX_def)
  finally show ?thesis .
qed

lemma respond_fits_monotone:
  assumes "respond_fits s r"
  shows "sint (quizCorrect s) \<le> sint (quizCorrect (snd (respond s r))) \<and>
         sint (quizIncorrect s) \<le> sint (quizIncorrect (snd (respond s r))) \<and>
         quizTotal (snd (respond s r)) = quizTotal s"
  using assms
  by (auto simp: respond_fits_def respond_def sint_succ INT_MAX_def split: if_splits)

lemma advance_fits_monotone:
  assumes "nextQuestion we s = Inr (b, s')" and "advance_fits s s'"
  shows "quizCorrect s' = quizCorrect s \<and> quizIncorrect s' = quizIncorrect s \<and>
         sint (quizTotal s) \<le> sint (quizTotal s')"
proof -
  note res = nextQuestion_result [OF assms(1)]
  show ?thesis
  proof (cases "onLastQuestion s")
    case True
    with res show ?thesis by simp
  next
    case False
    then have "sint (quizTotal s) + int (length (correctResponses s')) \<le> INT_MAX"
      using assms(2) by (simp add: advance_fits_def)
    from sint_add_of_nat [OF this] res False show ?thesis by simp
  qed
qed

lemma fitting_run_session_run: "fitting_run we s s' \<Longrightarrow> session_run we s s'"
  by (induction rule: fitting_run.induct) (auto intro: session_run.intros)

lemma session_run_responds: "session_run we s (responds s rs)"
proof (induction rs rule: rev_induct)
  case Nil
  show ?case by (simp add: run_none)
next
  case (snoc r rs)
  have "responds s (rs @ [r]) = snd (respond (responds s rs) r)"
    by (induction rs arbitrary: s) simp_all
  with run_respond [OF snoc.IH, of r] show ?case by simp
qed

lemma many_incorrect:
  "responds actQuiz (replicate n ''dog'') =
     actQuiz\<lparr>incorrectUserResponses := replicate n ''dog'', quizIncorrect := of_nat n\<rparr>"
proof -
  have "''dog'' \<notin> set (correctResponses actQuiz)" by (simp add: actQuiz_def)
  from responds_replicate_incorrect [OF this, of n] show ?thesis
    by (simp add: actQuiz_def)
qed

text \<open>
  Claim C8 fails as stated. In the session of \<open>act\<close>, after 2147483647 responses \<open>dog\<close>
  the counter of incorrect responses is 2147483647, the largest \<open>int\<close>; one more response
  \<open>dog\<close> steps it to -2147483648.
\<close>

theorem counters_monotone_counterexample:
  "session_run stubEngine actQuiz
     (snd (respond (responds actQuiz (replicate 2147483647 ''dog'')) ''dog'')) \<and>
   sint (quizIncorrect (responds actQuiz (replicate 2147483647 ''dog''))) = 2147483647 \<and>
   sint (quizIncorrect (snd (respond (responds actQuiz (replicate 2147483647 ''dog'')) ''dog'')))
     = - 2147483648"
proof -
  define s where "s = responds actQuiz (replicate 2147483647 ''dog'')"
  have run: "session_run stubEngine actQuiz (snd (respond s ''dog''))"
    unfolding s_def by (rule run_respond [OF session_run_responds])
  have "quizIncorrect s = of_nat 2147483647"
    unfolding s_def by (simp only: many_incorrect) simp
  then have before: "quizIncorrect s = 2147483647" by simp
  have "correctResponses s = correctResponses actQuiz"
    unfolding s_def by (rule responds_correctResponses)
  then have "''dog'' \<notin> set (correctResponses s)" by (simp add: actQuiz_def)
  then have "quizIncorrect (snd (respond s ''dog'')) = quizIncorrect s + 1"
    by (simp add: respond_incorrect)
  then have after: "quizIncorrect (snd (respond s ''dog'')) = 2147483648"
    by (simp add: before)
  have "sint (quizIncorrect s) = 2147483647"
    by (simp add: before)
  moreover have "sint (quizIncorrect (snd (respond s ''dog''))) = - 2147483648"
    by (simp add: after)
  ultimately show ?thesis
    using run unfolding s_def by (intro conjI)
qed

text \<open>
  Claim C8, amended. Within one session, no sequence of \<open>respond\<close> and \<open>nextQuestion\<close>
  calls decreases the number of correct responses, of incorrect responses or of possible
  answers, as long as no call steps a counter past the largest \<open>int\<close>.
\<close>

theorem counters_monotone_in_range:
  "fitting_run we s s' \<Longrightarrow>
   sint (quizCorrect s) \<le> sint (quizCorrect s') \<and>
   sint (quizIncorrect s) \<le> sint (quizIncorrect s') \<and>
   sint (quizTotal s) \<le> sint (quizTotal s')"
proof (induction rule: fitting_run.induct)
  case (fit_none s)
  show ?case by simp
next
  case (fit_respond s s' r)
  from respond_fits_monotone [OF fit_respond.hyps(2)] fit_respond.IH
  show ?case by simp
next
  case (fit_nextQuestion s s' b s'')
  from advance_fits_monotone [OF fit_nextQuestion.hyps(2,3)] fit_nextQuestion.IH
  show ?case by simp
qed

text \<open>The session of the pattern \<open>???\<close>: the responses \<open>cat\<close> and \<open>dog\<close>, then the next question.\<close>

theorem counters_monotone_in_range_witness:
  "fitting_run stubEngine patternQuiz
     \<lparr>quizQuestions = [''act'', ''opt''], quizType = Anagram, questionIndex = 1,
      correctResponses = [''opt'', ''pot'', ''top''], correctUserResponses = [],
      incorrectUserResponses = [], quizTotal = 5, quizCorrect = 1, quizIncorrect = 1\<rparr> \<and>
   sint (quizCorrect patternQuiz) \<le> 1 \<and> sint (quizIncorrect patternQuiz) \<le> 1 \<and>
   sint (quizTotal patternQuiz) \<le> 5"
proof -
  let ?s1 = "snd (respond patternQuiz ''cat'')"
  let ?s2 = "snd (respond ?s1 ''dog'')"
  let ?s3 = "\<lparr>quizQuestions = [''act'', ''opt''], quizType = Anagram, questionIndex = 1,
      correctResponses = [''opt'', ''pot'', ''top''], correctUserResponses = [],
      incorrectUserResponses = [], quizTotal = 5, quizCorrect = 1, quizIncorrect = 1\<rparr>"
  have f1: "respond_fits patternQuiz ''cat''" by code_simp
  have f2: "respond_fits ?s1 ''dog''" by code_simp
  have n: "nextQuestion stubEngine ?s2 = Inr (None, ?s3)" by code_simp
  have f3: "advance_fits ?s2 ?s3" by code_simp
  have "fitting_run stubEngine patternQuiz ?s2"
    by (intro fit_respond fit_none f1 f2)
  then have run: "fitting_run stubEngine patternQuiz ?s3"
    using n f3 by (rule fit_nextQuestion)
  from counters_monotone_in_range [OF run] run show ?thesis
    by simp
qed

lemma session_run_fixed:
  "session_run we s s' \<Longrightarrow> quizType s' = quizType s \<and> quizQuestions s' = quizQuestions s"
proof (induction rule: session_run.induct)
  case (run_none s)
  show ?case by simp
next
  case (run_respond s s' r)
  then show ?case by (simp add: respond_quizType respond_quizQuestions)
next
  case (run_nextQuestion s s' b s'')
  from nextQuestion_result(1,2) [OF run_nextQuestion.hyps(2)] run_nextQuestion.IH
  show ?case by simp
qed

text \<open>
  Claim C2. \<open>newQuiz\<close> always yields a session. With alphagrams, a Pattern quiz has the
  type Anagram from then on, through every \<open>respond\<close> and \<open>nextQuestion\<close> call of the
  session, and an Anagram or Subanagram quiz keeps the type asked for. Without alphagrams
  the type is the one asked for and the question list is the input alone.
\<close>

theorem newQuiz_effective_type:
  "(\<exists>s. newQuiz we rnd s0 input t a r = Inr s) \<and>
   (\<forall>s s'. newQuiz we rnd s0 input t a r = Inr s \<and> session_run we s s' \<longrightarrow>
      (a \<and> t = Pattern \<longrightarrow> quizType s' = Anagram) \<and>
      (a \<and> (t = Anagram \<or> t = Subanagram) \<longrightarrow> quizType s' = t) \<and>
      (\<not> a \<longrightarrow> quizType s' = t \<and> quizQuestions s = [input] \<and> quizQuestions s' = [input]))"
proof (intro conjI allI impI)
  show "\<exists>s. newQuiz we rnd s0 input t a r = Inr s" by (rule newQuiz_total)
next
  fix s s'
  assume h: "newQuiz we rnd s0 input t a r = Inr s \<and> session_run we s s'"
  then have fixed: "quizType s' = quizType s" "quizQuestions s' = quizQuestions s"
    using session_run_fixed by blast+
  note res = newQuiz_result(1,2) [of we rnd s0 input t a r s]
  { assume "a \<and> t = Pattern"
    then show "quizType s' = Anagram" using h res(1) fixed by simp }
  { assume "a \<and> (t = Anagram \<or> t = Subanagram)"
    then show "quizType s' = t" using h res(1) fixed by auto }
  { assume "\<not> a"
    then show "quizType s' = t" using h res(1) fixed by simp }
  { assume "\<not> a"
    then show "quizQuestions s = [input]" using h res(2) by simp }
  { assume "\<not> a"
    then show "quizQuestions s' = [input]" using h res(2) fixed by simp }
qed

text \<open>The pattern \<open>???\<close> with alphagrams, and the anagram quiz of \<open>act\<close> without.\<close>

theorem newQuiz_effective_type_witness:
  "newQuiz stubEngine stubRand blankEngine ''???'' Pattern True False = Inr patternQuiz \<and>
   session_run stubEngine patternQuiz (snd (respond patternQuiz ''cat'')) \<and>
   quizType (snd (respond patternQuiz ''cat'')) = Anagram \<and>
   newQuiz stubEngine stubRand blankEngine ''act'' Anagram False False = Inr actQuiz \<and>
   session_run stubEngine actQuiz (snd (respond actQuiz ''cat'')) \<and>
   quizType (snd (respond actQuiz ''cat'')) = Anagram \<and>
   quizQuestions (snd (respond actQuiz ''cat'')) = [''act'']"
proof -
  have r1: "session_run stubEngine patternQuiz (snd (respond patternQuiz ''cat''))"
    and r2: "session_run stubEngine actQuiz (snd (respond actQuiz ''cat''))"
    by (intro run_respond run_none)+
  have "quizType (snd (respond patternQuiz ''cat'')) = Anagram"
    using newQuiz_effective_type [of stubEngine stubRand blankEngine "''???''" Pattern True False,
        THEN conjunct2, rule_format, of patternQuiz "snd (respond patternQuiz ''cat'')"]
      patternQuiz_newQuiz r1
    by simp
  moreover have "quizType (snd (respond actQuiz ''cat'')) = Anagram \<and>
      quizQuestions (snd (respond actQuiz ''cat'')) = [''act'']"
    using newQuiz_effective_type [of stubEngine stubRand blankEngine "''act''" Anagram False False,
        THEN conjunct2, rule_format, of actQuiz "snd (respond actQuiz ''cat'')"]
      actQuiz_newQuiz r2
    by simp
  ultimately show ?thesis
    using patternQuiz_newQuiz actQuiz_newQuiz r1 r2 by simp
qed

section \<open>The return value of nextQuestion\<close>

text \<open>
  Claim C5. The claim asks \<open>nextQuestion\<close> to return true when it advances. In the session
  of the pattern \<open>???\<close>, which has two questions and is at the first, the call advances
  the cursor and prepares the second question, and returns no value at all: the source
  has no return statement on this path.
\<close>

theorem nextQuestion_returns_no_value:
  "\<not> onLastQuestion patternQuiz \<and>
   nextQuestion stubEngine patternQuiz =
     Inr (None, patternQuiz\<lparr>questionIndex := 1, correctResponses := [''opt'', ''pot'', ''top''],
                            quizTotal := 5\<rparr>)"
  by code_simp

lemma nextQuestion_never_true: "nextQuestion we s \<noteq> Inr (Some True, s')"
  by (simp add: nextQuestion_def split: sum.split)

section \<open>Properties of the maps\<close>

lemma qmap_set_keys: "fst ` set (qmap_set m k v) = insert k (fst ` set m)"
  by (induction m k v rule: qmap_set.induct) auto

lemma qmap_set_ok: "qmap_ok m \<Longrightarrow> qmap_ok (qmap_set m k v)"
proof (induction m k v rule: qmap_set.induct)
  case (1 k v)
  show ?case by (simp add: qmap_ok_def)
next
  case (2 k' v' m k v)
  show ?case
  proof (cases "k < k'")
    case True
    with "2.prems" show ?thesis by (auto simp: qmap_ok_def)
  next
    case False
    show ?thesis
    proof (cases "k = k'")
      case True
      with "2.prems" show ?thesis by (auto simp: qmap_ok_def)
    next
      case ne: False
      with False have lt: "k' < k" by simp
      have ok: "qmap_ok (qmap_set m k v)"
        using "2.IH" False ne "2.prems" by (simp add: qmap_ok_def)
      have "\<forall>x \<in> fst ` set (qmap_set m k v). k' < x"
        using "2.prems" lt by (auto simp: qmap_set_keys qmap_ok_def)
      then show ?thesis
        using ok False ne by (auto simp: qmap_ok_def)
    qed
  qed
qed

lemma qmap_value_absent: "\<not> qmap_contains m k \<Longrightarrow> qmap_value m k = 0"
  by (simp add: qmap_contains_def qmap_value_def map_of_eq_None_iff [THEN iffD2])

lemma qmap_set_sum:
  "qmap_ok m \<Longrightarrow> sum_values (qmap_set m k v) = sum_values m - qmap_value m k + v"
proof (induction m k v rule: qmap_set.induct)
  case (1 k v)
  show ?case by (simp add: sum_values_def qmap_value_def)
next
  case (2 k' v' m k v)
  show ?case
  proof (cases "k < k'")
    case True
    have "\<not> qmap_contains ((k', v') # m) k"
      using True "2.prems" by (auto simp: qmap_contains_def qmap_ok_def)
    then have "qmap_value ((k', v') # m) k = 0" by (rule qmap_value_absent)
    with True show ?thesis by (simp add: sum_values_def)
  next
    case False
    show ?thesis
    proof (cases "k = k'")
      case True
      then show ?thesis by (simp add: sum_values_def qmap_value_def)
    next
      case ne: False
      have "sum_values (qmap_set m k v) = sum_values m - qmap_value m k + v"
        using "2.IH" False ne "2.prems" by (simp add: qmap_ok_def)
      moreover have "qmap_value ((k', v') # m) k = qmap_value m k"
        using ne by (simp add: qmap_value_def)
      ultimately show ?thesis
        using False ne by (simp add: sum_values_def)
    qed
  qed
qed

lemma qmap_set_last: "qmap_ok (m @ [(k, v)]) \<Longrightarrow> qmap_set m k v = m @ [(k, v)]"
proof (induction m)
  case Nil
  show ?case by simp
next
  case (Cons a m)
  obtain k' v' where a: "a = (k', v')" by (cases a)
  have lt: "k' < k" using Cons.prems by (auto simp: qmap_ok_def a)
  have "qmap_ok (m @ [(k, v)])" using Cons.prems by (simp add: qmap_ok_def)
  then have "qmap_set m k v = m @ [(k, v)]" by (rule Cons.IH)
  moreover have "\<not> k < k'" and "k \<noteq> k'" using lt by auto
  ultimately show ?case by (simp add: a)
qed

lemma qmap_set_value: "qmap_value (qmap_set m k v) k = v"
  by (induction m k v rule: qmap_set.induct) (auto simp: qmap_value_def)

section \<open>Numbers as text\<close>

lemma isDigit_digitChar: "0 \<le> d \<Longrightarrow> d < 10 \<Longrightarrow> isDigit (digitChar d)"
  by (simp add: isDigit_def digitChar_def)

lemma digitChar_value: "0 \<le> d \<Longrightarrow> d < 10 \<Longrightarrow> of_char (digitChar d) - 48 = d"
  by (simp add: digitChar_def)

lemma decimal_nonempty: "decimal n \<noteq> []"
  by (subst decimal.simps) simp

lemma decimal_digits: "0 \<le> n \<Longrightarrow> list_all isDigit (decimal n)"
proof (induction n rule: decimal.induct)
  case (1 n)
  show ?case
  proof (cases "n < 10")
    case True
    with "1.prems" show ?thesis by (subst decimal.simps) (simp add: isDigit_digitChar)
  next
    case False
    then have "list_all isDigit (decimal (n div 10))"
      using "1.IH" "1.prems" by simp
    moreover have "isDigit (digitChar (n mod 10))"
      by (rule isDigit_digitChar) simp_all
    ultimately show ?thesis using False by (subst decimal.simps) simp
  qed
qed

lemma digitsValue_snoc: "digitsValue (ds @ [c]) = 10 * digitsValue ds + (of_char c - 48)"
  by (simp add: digitsValue_def)

lemma digitsValue_decimal: "0 \<le> n \<Longrightarrow> digitsValue (decimal n) = n"
proof (induction n rule: decimal.induct)
  case (1 n)
  show ?case
  proof (cases "n < 10")
    case True
    with "1.prems" show ?thesis
      by (subst decimal.simps) (simp add: digitsValue_def digitChar_value)
  next
    case False
    then have "digitsValue (decimal (n div 10)) = n div 10"
      using "1.IH" "1.prems" by simp
    moreover have "of_char (digitChar (n mod 10)) - 48 = n mod 10"
      by (rule digitChar_value) simp_all
    ultimately show ?thesis using False
      by (subst decimal.simps) (simp add: digitsValue_snoc)
  qed
qed

lemma isDigit_plain: "isDigit c \<Longrightarrow> \<not> isSpace c \<and> c \<noteq> CHR ''-'' \<and> c \<noteq> CHR ''+''"
  by (auto simp: isDigit_def isSpace_def)

lemma toInt_digits:
  assumes "ds \<noteq> []" and "list_all isDigit ds"
  shows "dropWhile isSpace ds = ds" and "hd ds \<noteq> CHR ''-''" and "hd ds \<noteq> CHR ''+''"
    and "takeWhile isDigit ds = ds" and "dropWhile isDigit ds = []"
proof -
  obtain c cs where ds: "ds = c # cs" using assms(1) by (cases ds) auto
  then have "isDigit c" using assms(2) by simp
  then have plain: "\<not> isSpace c \<and> c \<noteq> CHR ''-'' \<and> c \<noteq> CHR ''+''" by (rule isDigit_plain)
  show "dropWhile isSpace ds = ds" using plain by (simp add: ds)
  show "hd ds \<noteq> CHR ''-''" using plain by (simp add: ds)
  show "hd ds \<noteq> CHR ''+''" using plain by (simp add: ds)
  show "takeWhile isDigit ds = ds" using assms(2) by (simp add: takeWhile_eq_all_conv list_all_iff)
  show "dropWhile isDigit ds = []" using assms(2) by (simp add: list_all_iff)
qed

lemma QString_toInt_digits:
  assumes "ds \<noteq> []" and "list_all isDigit ds"
  shows "QString_toInt ds =
    (if - (2 ^ 31) \<le> digitsValue ds \<and> digitsValue ds \<le> 2 ^ 31 - 1
     then Some (word_of_int (digitsValue ds)) else None)"
  unfolding QString_toInt_def Let_def
  by (simp only: toInt_digits [OF assms] assms(1) list.pred_inject(1) simp_thms if_True if_False not_False_eq_True not_True_eq_False)

lemma QString_toInt_minus_digits:
  assumes "ds \<noteq> []" and "list_all isDigit ds"
  shows "QString_toInt (CHR ''-'' # ds) =
    (if - (2 ^ 31) \<le> - digitsValue ds \<and> - digitsValue ds \<le> 2 ^ 31 - 1
     then Some (word_of_int (- digitsValue ds)) else None)"
proof -
  have sp: "dropWhile isSpace (CHR ''-'' # ds) = CHR ''-'' # ds"
    by (simp add: isSpace_def)
  show ?thesis
    unfolding QString_toInt_def Let_def sp
    by (simp only: toInt_digits [OF assms] assms(1) list.sel list.pred_inject(1) simp_thms if_True if_False not_False_eq_True not_True_eq_False list.distinct)
qed

lemma QString_toInt_number: "QString_toInt (QString_number w) = Some w"
proof (cases "sint w < 0")
  case True
  let ?ds = "decimal (- sint w)"
  have pos: "0 \<le> - sint w" using True by simp
  have val: "digitsValue ?ds = - sint w" using pos by (rule digitsValue_decimal)
  have lo: "- (2 ^ 31) \<le> sint w" using sint_ge [of w] by simp
  have "QString_toInt (CHR ''-'' # ?ds) = Some (word_of_int (sint w))"
    using True lo
    by (simp only: QString_toInt_minus_digits [OF decimal_nonempty decimal_digits [OF pos]] val)
       simp
  then show ?thesis using True by (simp only: QString_number_def if_True of_int_sint scast_id)
next
  case False
  let ?ds = "decimal (sint w)"
  have pos: "0 \<le> sint w" using False by simp
  have val: "digitsValue ?ds = sint w" using pos by (rule digitsValue_decimal)
  have hi: "sint w \<le> 2 ^ 31 - 1" using sint_lt [of w] by simp
  have "QString_toInt ?ds = Some (word_of_int (sint w))"
    using pos hi
    by (simp only: QString_toInt_digits [OF decimal_nonempty decimal_digits [OF pos]] val)
       simp
  then show ?thesis using False by (simp only: QString_number_def if_False of_int_sint scast_id)
qed

section \<open>fromDomElement: all or nothing\<close>

text \<open>
  \<open>fromDomElement\<close> is all or nothing. Whether it succeeds depends on the document alone.
  When it fails, the object is as it was before the call. When it succeeds, the object is
  the state read from the document, the same whatever the object held before.
\<close>

lemma fromDomElement_all_or_nothing:
  "fst (fromDomElement p element) = fst (fromDomElement p' element) \<and>
   (\<not> fst (fromDomElement p element) \<longrightarrow> snd (fromDomElement p element) = p) \<and>
   (fst (fromDomElement p element) \<longrightarrow>
      snd (fromDomElement p element) = snd (fromDomElement p' element))"
  by (simp add: fromDomElement_def split: QDomNode.split option.split)

text \<open>
  A document that fails (its response has no count) and one that succeeds, both read into
  an object that holds data.
\<close>

lemma fromDomElement_all_or_nothing_example:
  "\<not> fst (fromDomElement zaxProgress noCountDocument) \<and>
   snd (fromDomElement zaxProgress noCountDocument) = zaxProgress \<and>
   fst (fromDomElement zaxProgress (asDomElement twiceCounted)) \<and>
   snd (fromDomElement zaxProgress (asDomElement twiceCounted)) =
     snd (fromDomElement QuizProgress_new (asDomElement twiceCounted))"
proof -
  have f: "\<not> fst (fromDomElement zaxProgress noCountDocument)"
    by code_simp
  have t: "fst (fromDomElement zaxProgress (asDomElement twiceCounted))"
    by code_simp
  from fromDomElement_all_or_nothing [of zaxProgress noCountDocument QuizProgress_new]
    fromDomElement_all_or_nothing [of zaxProgress "asDomElement twiceCounted" QuizProgress_new]
    f t
  show ?thesis by simp
qed

lemma fromDomElement_wrong_tag:
  "tag \<noteq> ''progress'' \<Longrightarrow> fromDomElement p (QDomElement tag as cs) = (False, p)"
  by (simp add: fromDomElement_def XML_TOP_ELEMENT_def)

text \<open>
  What makes a document fail: in the top element, an attribute that is no number; among the
  children that the loops reach, a child with another tag, or a response without its word
  or count, or with a count that is no number.
\<close>

lemma fromDomElement_bad_attribute:
  "hasAttribute as XML_QUESTION_ATTR \<Longrightarrow> QString_toInt (attribute as XML_QUESTION_ATTR) = None
     \<Longrightarrow> fromDomElement p (QDomElement tag as cs) = (False, p)"
  "hasAttribute as XML_CORRECT_ATTR \<Longrightarrow> QString_toInt (attribute as XML_CORRECT_ATTR) = None
     \<Longrightarrow> fromDomElement p (QDomElement tag as cs) = (False, p)"
  by (simp_all add: fromDomElement_def readQuestion_def readCorrect_def split: option.split)

lemma responseLoop_bad_response:
  assumes "QDomElement tag as cs \<in> set (takeWhile (\<lambda>n. n \<noteq> QDomOther) ns)"
    and "\<not> hasAttribute as XML_RESPONSE_WORD_ATTR \<or> \<not> hasAttribute as XML_RESPONSE_COUNT_ATTR \<or>
         QString_toInt (attribute as XML_RESPONSE_COUNT_ATTR) = None"
  shows "responseLoop kind ns tmp = None"
  using assms
proof (induction kind ns tmp rule: responseLoop.induct)
  case (1 elemMissed tmp)
  then show ?case by simp
next
  case (2 elemMissed siblings tmp)
  then show ?case by simp
next
  case (3 elemMissed tag' as' cs' siblings tmp)
  then show ?case by (auto simp: Let_def split: option.split)
qed

lemma elementLoop_bad_child:
  assumes "QDomElement tag as cs \<in> set (takeWhile (\<lambda>n. n \<noteq> QDomOther) ns)"
    and "(tag \<noteq> XML_MISSED_RESPONSES_ELEMENT \<and> tag \<noteq> XML_INCORRECT_RESPONSES_ELEMENT) \<or>
         (\<exists>tag' as' cs'. QDomElement tag' as' cs' \<in> set (takeWhile (\<lambda>n. n \<noteq> QDomOther) cs) \<and>
            (\<not> hasAttribute as' XML_RESPONSE_WORD_ATTR \<or>
             \<not> hasAttribute as' XML_RESPONSE_COUNT_ATTR \<or>
             QString_toInt (attribute as' XML_RESPONSE_COUNT_ATTR) = None))"
  shows "elementLoop ns tmp = None"
  using assms
proof (induction ns tmp rule: elementLoop.induct)
  case (1 tmp)
  then show ?case by simp
next
  case (2 siblings tmp)
  then show ?case by simp
next
  case (3 tag0 as0 cs0 siblings tmp)
  show ?case
  proof (cases "QDomElement tag as cs = QDomElement tag0 as0 cs0")
    case True
    then show ?thesis
      using "3.prems"(2) responseLoop_bad_response [of _ _ _ cs0]
      by (auto split: option.split)
  next
    case False
    then have "QDomElement tag as cs \<in> set (takeWhile (\<lambda>n. n \<noteq> QDomOther) siblings)"
      using "3.prems"(1) by auto
    then show ?thesis
      using "3.IH" "3.prems"(2) by (auto split: option.split)
  qed
qed

lemma fromDomElement_bad_child:
  assumes "QDomElement tag as cs \<in> set (takeWhile (\<lambda>n. n \<noteq> QDomOther) children)"
    and "(tag \<noteq> XML_MISSED_RESPONSES_ELEMENT \<and> tag \<noteq> XML_INCORRECT_RESPONSES_ELEMENT) \<or>
         (\<exists>tag' as' cs'. QDomElement tag' as' cs' \<in> set (takeWhile (\<lambda>n. n \<noteq> QDomOther) cs) \<and>
            (\<not> hasAttribute as' XML_RESPONSE_WORD_ATTR \<or>
             \<not> hasAttribute as' XML_RESPONSE_COUNT_ATTR \<or>
             QString_toInt (attribute as' XML_RESPONSE_COUNT_ATTR) = None))"
  shows "fromDomElement p (QDomElement top_tag as0 children) = (False, p)"
  using elementLoop_bad_child [OF assms]
  by (simp add: fromDomElement_def split: option.split)

text \<open>
  Claim C4. The claim asks that a document with a child of an unknown tag, or with a
  response that lacks an attribute, fails and leaves the object as it was. Both loops of
  \<open>fromDomElement\<close> end at the first node that is not an element. So a document with a
  comment before the child \<open>bogus\<close> succeeds and replaces the object, and so does one with a
  comment before a response without count; without the comment each of the two fails.
\<close>

theorem fromDomElement_accepts_after_comment:
  "fromDomElement zaxProgress commentedDocument =
     (True, \<lparr>question = 7, correct = 0, incorrect = 0, missed = 0,
             incorrectWords = [], missedWords = []\<rparr>) \<and>
   fromDomElement zaxProgress
     (QDomElement ''progress'' [(''question'', ''7'')] [QDomElement ''bogus'' [] []]) =
     (False, zaxProgress) \<and>
   fromDomElement zaxProgress commentedResponses =
     (True, \<lparr>question = 7, correct = 0, incorrect = 0, missed = 0,
             incorrectWords = [], missedWords = []\<rparr>) \<and>
   fromDomElement zaxProgress
     (QDomElement ''progress'' [(''question'', ''7'')]
        [QDomElement ''incorrect-responses'' [] [QDomElement ''response'' [(''word'', ''zax'')] []]]) =
     (False, zaxProgress)"
  by code_simp

section \<open>The invariant of the counters\<close>

text \<open>The counted additions overwrite the count of the word and add it to the counter.\<close>

lemma counted_overloads_overwrite:
  "qmap_value (incorrectWords (addIncorrect_count p w c)) w = c"
  "incorrect (addIncorrect_count p w c) = incorrect p + c"
  "qmap_value (missedWords (addMissed_count p w c)) w = c"
  "missed (addMissed_count p w c) = missed p + c"
  by (simp_all add: addIncorrect_count_def addMissed_count_def qmap_set_value)

lemma addIncorrect_inv: "progress_inv p \<Longrightarrow> progress_inv (addIncorrect p w)"
  by (simp add: progress_inv_def addIncorrect_def Let_def qmap_set_ok qmap_set_sum
      qmap_value_absent)

lemma addMissed_inv: "progress_inv p \<Longrightarrow> progress_inv (addMissed p w)"
  by (simp add: progress_inv_def addMissed_def Let_def qmap_set_ok qmap_set_sum
      qmap_value_absent)

lemma addIncorrect_count_inv:
  "progress_inv p \<Longrightarrow> \<not> qmap_contains (incorrectWords p) w \<Longrightarrow>
   progress_inv (addIncorrect_count p w c)"
  by (simp add: progress_inv_def addIncorrect_count_def qmap_set_ok qmap_set_sum
      qmap_value_absent)

lemma addMissed_count_inv:
  "progress_inv p \<Longrightarrow> \<not> qmap_contains (missedWords p) w \<Longrightarrow>
   progress_inv (addMissed_count p w c)"
  by (simp add: progress_inv_def addMissed_count_def qmap_set_ok qmap_set_sum
      qmap_value_absent)

lemma add_count_words:
  "wordsOf True (addMissed_count p w c) = insert w (wordsOf True p)"
  "wordsOf False (addMissed_count p w c) = wordsOf False p"
  "wordsOf False (addIncorrect_count p w c) = insert w (wordsOf False p)"
  "wordsOf True (addIncorrect_count p w c) = wordsOf True p"
  by (simp_all add: wordsOf_def addMissed_count_def addIncorrect_count_def qmap_set_keys)

lemma responseLoop_inv:
  assumes "responseLoop kind ns tmp = Some tmp'" and "progress_inv tmp"
    and "distinct (loopWords ns)" and "set (loopWords ns) \<inter> wordsOf kind tmp = {}"
  shows "progress_inv tmp' \<and> wordsOf kind tmp' = wordsOf kind tmp \<union> set (loopWords ns) \<and>
         wordsOf (\<not> kind) tmp' = wordsOf (\<not> kind) tmp"
  using assms
proof (induction kind ns tmp rule: responseLoop.induct)
  case (1 elemMissed tmp)
  then show ?case by simp
next
  case (2 elemMissed siblings tmp)
  then show ?case by simp
next
  case (3 elemMissed tag as cs siblings tmp)
  let ?word = "attribute as XML_RESPONSE_WORD_ATTR"
  from "3.prems"(1) obtain count where
    has: "hasAttribute as XML_RESPONSE_WORD_ATTR" "hasAttribute as XML_RESPONSE_COUNT_ATTR"
    and cnt: "QString_toInt (attribute as XML_RESPONSE_COUNT_ATTR) = Some count"
    and rest: "responseLoop elemMissed siblings
                 (if elemMissed then addMissed_count tmp ?word count
                  else addIncorrect_count tmp ?word count) = Some tmp'"
    by (auto simp: Let_def split: if_splits option.splits)
  let ?tmp1 = "if elemMissed then addMissed_count tmp ?word count
               else addIncorrect_count tmp ?word count"
  have fresh: "?word \<notin> wordsOf elemMissed tmp"
    using "3.prems"(4) by auto
  have inv1: "progress_inv ?tmp1"
    using "3.prems"(2) fresh
    by (auto simp: wordsOf_def qmap_contains_def intro: addMissed_count_inv addIncorrect_count_inv)
  have w1: "wordsOf elemMissed ?tmp1 = insert ?word (wordsOf elemMissed tmp)"
    and w2: "wordsOf (\<not> elemMissed) ?tmp1 = wordsOf (\<not> elemMissed) tmp"
    by (cases elemMissed; simp add: add_count_words)+
  have d: "distinct (loopWords siblings)" and nin: "?word \<notin> set (loopWords siblings)"
    using "3.prems"(3) by simp_all
  have disj: "set (loopWords siblings) \<inter> wordsOf elemMissed ?tmp1 = {}"
    using "3.prems"(4) nin unfolding w1 by auto
  have "progress_inv tmp' \<and>
        wordsOf elemMissed tmp' = wordsOf elemMissed ?tmp1 \<union> set (loopWords siblings) \<and>
        wordsOf (\<not> elemMissed) tmp' = wordsOf (\<not> elemMissed) ?tmp1"
    using "3.IH" [OF _ cnt refl rest inv1 d disj] has by simp
  then show ?case unfolding w1 w2 by auto
qed

lemma elementLoop_inv:
  assumes "elementLoop cs tmp = Some tmp'" and "progress_inv tmp"
    and "distinct (docWords False cs)" and "distinct (docWords True cs)"
    and "set (docWords False cs) \<inter> wordsOf False tmp = {}"
    and "set (docWords True cs) \<inter> wordsOf True tmp = {}"
  shows "progress_inv tmp'"
  using assms
proof (induction cs tmp rule: elementLoop.induct)
  case (1 tmp)
  then show ?case by simp
next
  case (2 siblings tmp)
  then show ?case by simp
next
  case (3 tag as cs siblings tmp)
  let ?kind = "tag = XML_MISSED_RESPONSES_ELEMENT"
  from "3.prems"(1) obtain tmp1 where
    known: "\<not> (tag \<noteq> XML_MISSED_RESPONSES_ELEMENT \<and> tag \<noteq> XML_INCORRECT_RESPONSES_ELEMENT)"
    and inner: "responseLoop ?kind cs tmp = Some tmp1"
    and rest: "elementLoop siblings tmp1 = Some tmp'"
    by (auto split: if_splits option.splits)
  have dk: "distinct (loopWords cs)"
    using "3.prems"(3,4) by (cases ?kind) simp_all
  have ik: "set (loopWords cs) \<inter> wordsOf ?kind tmp = {}"
    using "3.prems"(5,6) by (cases ?kind) auto
  from responseLoop_inv [OF inner "3.prems"(2) dk ik]
  have inv1: "progress_inv tmp1"
    and w1: "wordsOf ?kind tmp1 = wordsOf ?kind tmp \<union> set (loopWords cs)"
    and w2: "wordsOf (\<not> ?kind) tmp1 = wordsOf (\<not> ?kind) tmp"
    by simp_all
  have dF: "distinct (docWords False siblings)" and dT: "distinct (docWords True siblings)"
    using "3.prems"(3,4) by simp_all
  have iF: "set (docWords False siblings) \<inter> wordsOf False tmp1 = {}"
    using "3.prems"(3,5) w1 w2 by (cases ?kind) auto
  have iT: "set (docWords True siblings) \<inter> wordsOf True tmp1 = {}"
    using "3.prems"(4,6) w1 w2 by (cases ?kind) auto
  show ?case
    using "3.IH" [OF known inner rest inv1 dF dT iF iT] .
qed

lemma new_inv: "progress_inv QuizProgress_new"
  by (simp add: progress_inv_def QuizProgress_new_def qmap_ok_def sum_values_def)

lemma setters_inv:
  "progress_inv p \<Longrightarrow> progress_inv (setQuestion p q)"
  "progress_inv p \<Longrightarrow> progress_inv (setCorrect p c)"
  by (simp_all add: progress_inv_def setQuestion_def setCorrect_def)

lemma setters_words:
  "wordsOf kind (setQuestion p q) = wordsOf kind p"
  "wordsOf kind (setCorrect p c) = wordsOf kind p"
  "wordsOf kind QuizProgress_new = {}"
  by (simp_all add: wordsOf_def setQuestion_def setCorrect_def QuizProgress_new_def)

lemma fromDomElement_inv:
  assumes "fromDomElement p element = (True, p')" and "words_distinct element"
  shows "progress_inv p'"
proof -
  from assms(1) obtain tag as cs tmp1 tmp2 where
    el: "element = QDomElement tag as cs"
    and q: "readQuestion as QuizProgress_new = Some tmp1"
    and c: "readCorrect as tmp1 = Some tmp2"
    and loop: "elementLoop cs tmp2 = Some p'"
    by (auto simp: fromDomElement_def split: QDomNode.splits if_splits option.splits)
  have inv1: "progress_inv tmp1" and w1: "\<And>kind. wordsOf kind tmp1 = {}"
    using q by (auto simp: readQuestion_def new_inv setters_inv setters_words
        split: if_splits option.splits)
  have inv2: "progress_inv tmp2" and w2: "\<And>kind. wordsOf kind tmp2 = {}"
    using c inv1 w1 by (auto simp: readCorrect_def setters_inv setters_words
        split: if_splits option.splits)
  have d: "distinct (docWords False cs)" "distinct (docWords True cs)"
    using assms(2) by (simp_all add: words_distinct_def el)
  show ?thesis
    by (rule elementLoop_inv [OF loop inv2 d]) (simp_all add: w2)
qed

lemma fresh_words_history_inv: "fresh_words_history p \<Longrightarrow> progress_inv p"
proof (induction rule: fresh_words_history.induct)
  case hist_new
  show ?case by (rule new_inv)
next
  case (hist_fromDomElement p element p')
  then show ?case by (simp add: fromDomElement_inv)
qed (simp_all add: setters_inv addIncorrect_inv addMissed_inv addIncorrect_count_inv
      addMissed_count_inv)

text \<open>
  Claim C6 fails as stated. The counted addition overwrites the count of the word and adds
  the new count to the counter: after \<open>addIncorrect (a, 2)\<close> and \<open>addIncorrect (a, 3)\<close>
  the counter is 5 and the counts of the map sum to 3.
\<close>

theorem counters_sum_counterexample:
  "incorrect (addIncorrect_count (addIncorrect_count QuizProgress_new ''a'' 2) ''a'' 3) = 5 \<and>
   sum_values (incorrectWords
     (addIncorrect_count (addIncorrect_count QuizProgress_new ''a'' 2) ''a'' 3)) = 3 \<and>
   incorrect (addIncorrect_count (addIncorrect_count QuizProgress_new ''a'' 2) ''a'' 3) \<noteq>
   sum_values (incorrectWords
     (addIncorrect_count (addIncorrect_count QuizProgress_new ''a'' 2) ''a'' 3))"
  by code_simp

text \<open>
  Claim C6, amended. Each counter is the sum of the counts of its map in every object that
  comes from a new one by setters, one-word additions, counted additions of a word that
  the map does not hold yet, and successful \<open>fromDomElement\<close> calls on documents that
  repeat no word within a kind.
\<close>

theorem counters_sum_fresh_words:
  "fresh_words_history p \<Longrightarrow>
   incorrect p = sum_values (incorrectWords p) \<and> missed p = sum_values (missedWords p)"
  using fresh_words_history_inv [of p] by (simp add: progress_inv_def)

text \<open>The object with \<open>zax\<close> wrong twice and \<open>cat\<close> missed four times has such a history.\<close>

theorem counters_sum_fresh_words_witness:
  "fresh_words_history zaxProgress \<and>
   incorrect zaxProgress = 2 \<and> sum_values (incorrectWords zaxProgress) = 2 \<and>
   missed zaxProgress = 4 \<and> sum_values (missedWords zaxProgress) = 4"
proof -
  have "\<not> qmap_contains
      (missedWords (addIncorrect (addIncorrect (setQuestion QuizProgress_new 3) ''zax'') ''zax''))
      ''cat''"
    by code_simp
  then have h: "fresh_words_history zaxProgress"
    unfolding zaxProgress_def
    by (intro hist_addMissed_count hist_addIncorrect hist_setQuestion hist_new)
  have v: "incorrect zaxProgress = 2 \<and> missed zaxProgress = 4" by code_simp
  from counters_sum_fresh_words [OF h] h v show ?thesis by simp
qed

section \<open>Writing a document and reading it back\<close>

lemma responseElement_attrs:
  "responseElement (k, v) =
     QDomElement ''response'' [(''word'', k), (''count'', QString_number v)] []"
  by (simp add: responseElement_def XML_RESPONSE_ELEMENT_def XML_RESPONSE_WORD_ATTR_def
      XML_RESPONSE_COUNT_ATTR_def)

lemma responseLoop_one:
  "responseLoop kind (responseElement (k, v) # siblings) tmp =
     responseLoop kind siblings
       (if kind then addMissed_count tmp k v else addIncorrect_count tmp k v)"
  by (simp add: responseElement_attrs hasAttribute_def attribute_def QString_toInt_number
      XML_RESPONSE_WORD_ATTR_def XML_RESPONSE_COUNT_ATTR_def)

lemma responseLoop_incorrectWords:
  "qmap_ok (incorrectWords tmp @ ys) \<Longrightarrow>
   responseLoop False (map responseElement ys) tmp =
     Some (tmp\<lparr>incorrectWords := incorrectWords tmp @ ys,
               incorrect := incorrect tmp + sum_values ys\<rparr>)"
proof (induction ys arbitrary: tmp)
  case Nil
  show ?case by (simp add: sum_values_def)
next
  case (Cons kv ys)
  obtain k v where kv: "kv = (k, v)" by (cases kv)
  let ?tmp1 = "addIncorrect_count tmp k v"
  have "qmap_ok (incorrectWords tmp @ [(k, v)])"
    using Cons.prems by (simp add: qmap_ok_def kv sorted_wrt_append)
  then have set1: "qmap_set (incorrectWords tmp) k v = incorrectWords tmp @ [(k, v)]"
    by (rule qmap_set_last)
  then have iw: "incorrectWords ?tmp1 = incorrectWords tmp @ [(k, v)]"
    by (simp add: addIncorrect_count_def)
  have "qmap_ok (incorrectWords ?tmp1 @ ys)"
    using Cons.prems by (simp add: iw kv)
  from Cons.IH [OF this] show ?case
    by (simp add: kv responseLoop_one set1 sum_values_def addIncorrect_count_def add.assoc)
qed

lemma responseLoop_missedWords:
  "qmap_ok (missedWords tmp @ ys) \<Longrightarrow>
   responseLoop True (map responseElement ys) tmp =
     Some (tmp\<lparr>missedWords := missedWords tmp @ ys,
               missed := missed tmp + sum_values ys\<rparr>)"
proof (induction ys arbitrary: tmp)
  case Nil
  show ?case by (simp add: sum_values_def)
next
  case (Cons kv ys)
  obtain k v where kv: "kv = (k, v)" by (cases kv)
  let ?tmp1 = "addMissed_count tmp k v"
  have "qmap_ok (missedWords tmp @ [(k, v)])"
    using Cons.prems by (simp add: qmap_ok_def kv sorted_wrt_append)
  then have set1: "qmap_set (missedWords tmp) k v = missedWords tmp @ [(k, v)]"
    by (rule qmap_set_last)
  then have mw: "missedWords ?tmp1 = missedWords tmp @ [(k, v)]"
    by (simp add: addMissed_count_def)
  have "qmap_ok (missedWords ?tmp1 @ ys)"
    using Cons.prems by (simp add: mw kv)
  from Cons.IH [OF this] show ?case
    by (simp add: kv responseLoop_one set1 sum_values_def addMissed_count_def add.assoc)
qed

lemma read_top_attributes:
  "readQuestion [(''question'', QString_number q), (''correct'', QString_number c)] tmp
     = Some (setQuestion tmp q)"
  "readCorrect [(''question'', QString_number q), (''correct'', QString_number c)] tmp
     = Some (setCorrect tmp c)"
  by (simp_all add: readQuestion_def readCorrect_def hasAttribute_def attribute_def
      QString_toInt_number XML_QUESTION_ATTR_def XML_CORRECT_ATTR_def)

lemma asDomElement_shape:
  "asDomElement p =
     QDomElement ''progress''
       [(''question'', QString_number (question p)), (''correct'', QString_number (correct p))]
       ((if incorrectWords p \<noteq> [] then
           [QDomElement ''incorrect-responses'' [] (map responseElement (incorrectWords p))]
         else []) @
        (if missedWords p \<noteq> [] then
           [QDomElement ''missed-responses'' [] (map responseElement (missedWords p))]
         else []))"
  by (simp add: asDomElement_def XML_TOP_ELEMENT_def XML_QUESTION_ATTR_def XML_CORRECT_ATTR_def
      XML_INCORRECT_RESPONSES_ELEMENT_def XML_MISSED_RESPONSES_ELEMENT_def)

lemma elementLoop_written:
  assumes "qmap_ok iw" and "qmap_ok mw"
    and "incorrectWords tmp = []" and "missedWords tmp = []"
    and "incorrect tmp = 0" and "missed tmp = 0"
  shows "elementLoop
           ((if iw \<noteq> [] then [QDomElement ''incorrect-responses'' [] (map responseElement iw)]
             else []) @
            (if mw \<noteq> [] then [QDomElement ''missed-responses'' [] (map responseElement mw)]
             else [])) tmp
         = Some (tmp\<lparr>incorrectWords := iw, incorrect := sum_values iw,
                      missedWords := mw, missed := sum_values mw\<rparr>)"
proof -
  have i: "responseLoop False (map responseElement iw) tmp =
      Some (tmp\<lparr>incorrectWords := iw, incorrect := sum_values iw\<rparr>)"
    using responseLoop_incorrectWords [of tmp iw] assms by simp
  have m: "\<And>t. missedWords t = [] \<Longrightarrow> missed t = 0 \<Longrightarrow>
      responseLoop True (map responseElement mw) t =
      Some (t\<lparr>missedWords := mw, missed := sum_values mw\<rparr>)"
    using responseLoop_missedWords [of _ mw] assms(2) by simp
  have e: "sum_values [] = 0" by (simp add: sum_values_def)
  show ?thesis
    using assms(3-6)
    by (cases "iw = []"; cases "mw = []")
       (simp_all add: i m e XML_INCORRECT_RESPONSES_ELEMENT_def XML_MISSED_RESPONSES_ELEMENT_def)
qed

text \<open>
  Claim C3 fails as stated. After \<open>addIncorrect (a, 2)\<close> and \<open>addIncorrect (a, 3)\<close> the
  counter of incorrect responses is 5 and the map holds \<open>a\<close> with 3. The document does not
  store the counter; reading it back gives 3.
\<close>

theorem roundtrip_counterexample:
  "incorrect twiceCounted = 5 \<and>
   fromDomElement QuizProgress_new (asDomElement twiceCounted)
     = (True, twiceCounted\<lparr>incorrect := 3\<rparr>) \<and>
   snd (fromDomElement QuizProgress_new (asDomElement twiceCounted)) \<noteq> twiceCounted"
  by code_simp

text \<open>
  Claim C3, amended. For every \<open>QuizProgress\<close> whose two counters are the sums of the
  counts of their maps, reading the document that \<open>asDomElement\<close> writes succeeds and gives
  the same object: all four counters and both maps.
\<close>

theorem roundtrip_consistent:
  assumes "qmap_ok (incorrectWords p)" and "qmap_ok (missedWords p)"
    and "incorrect p = sum_values (incorrectWords p)"
    and "missed p = sum_values (missedWords p)"
  shows "fromDomElement p0 (asDomElement p) = (True, p)"
proof -
  let ?tmp2 = "setCorrect (setQuestion QuizProgress_new (question p)) (correct p)"
  have loop: "elementLoop
      ((if incorrectWords p \<noteq> [] then
          [QDomElement ''incorrect-responses'' [] (map responseElement (incorrectWords p))]
        else []) @
       (if missedWords p \<noteq> [] then
          [QDomElement ''missed-responses'' [] (map responseElement (missedWords p))]
        else [])) ?tmp2
      = Some (?tmp2\<lparr>incorrectWords := incorrectWords p,
                     incorrect := sum_values (incorrectWords p),
                     missedWords := missedWords p, missed := sum_values (missedWords p)\<rparr>)"
    by (rule elementLoop_written [OF assms(1,2)])
       (simp_all add: setCorrect_def setQuestion_def QuizProgress_new_def)
  have "?tmp2\<lparr>incorrectWords := incorrectWords p, incorrect := sum_values (incorrectWords p),
              missedWords := missedWords p, missed := sum_values (missedWords p)\<rparr> = p"
    using assms(3,4) by (simp add: setCorrect_def setQuestion_def QuizProgress_new_def)
  with loop show ?thesis
    by (simp add: fromDomElement_def asDomElement_shape read_top_attributes XML_TOP_ELEMENT_def)
qed

text \<open>The object with \<open>zax\<close> wrong twice and \<open>cat\<close> missed four times.\<close>

theorem roundtrip_consistent_witness:
  "qmap_ok (incorrectWords zaxProgress) \<and> qmap_ok (missedWords zaxProgress) \<and>
   incorrect zaxProgress = sum_values (incorrectWords zaxProgress) \<and>
   missed zaxProgress = sum_values (missedWords zaxProgress) \<and>
   fromDomElement QuizProgress_new (asDomElement zaxProgress) = (True, zaxProgress)"
proof -
  have h1: "qmap_ok (incorrectWords zaxProgress)" by code_simp
  have h2: "qmap_ok (missedWords zaxProgress)" by code_simp
  have h3: "incorrect zaxProgress = sum_values (incorrectWords zaxProgress)" by code_simp
  have h4: "missed zaxProgress = sum_values (missedWords zaxProgress)" by code_simp
  from roundtrip_consistent [OF h1 h2 h3 h4, of QuizProgress_new] h1 h2 h3 h4
  show ?thesis by simp
qed

end
